theory Spec2Isabelle
  imports Complex_Main
begin

section \<open>Registry reconciliation engine: data model\<close>

text \<open>
  The entities of \<^verbatim>\<open>src/common/registry\<close>. JavaScript numbers that hold block numbers,
  counters and indices are natural numbers; hashes, addresses and key material are strings.
  The entity classes are not part of the sources at hand: the columns are those the
  reconciler, the test fixtures and the spec name. Two records cannot share a field name,
  so the key's \<^verbatim>\<open>index\<close> and \<^verbatim>\<open>moduleAddress\<close> columns are \<open>keyIndex\<close> and
  \<open>keyModuleAddress\<close> here.
\<close>

record RegistryMeta =
  blockNumber :: nat
  blockHash :: string
  keysOpIndex :: nat
  timestamp :: nat

record RegistryOperator =
  index :: nat
  active :: bool
  name :: string
  rewardAddress :: string
  stakingLimit :: nat
  stoppedValidators :: nat
  totalSigningKeys :: nat
  usedSigningKeys :: nat
  moduleAddress :: string

record RegistryKey =
  keyIndex :: nat
  operatorIndex :: nat
  key :: string
  depositSignature :: string
  used :: bool
  keyModuleAddress :: string

text \<open>
  The three tables of the store. \<^verbatim>\<open>registry_meta\<close> holds at most one row; the operator
  and key tables are lists of rows in storage order.
\<close>

record Store =
  meta :: "RegistryMeta option"
  operators :: "RegistryOperator list"
  keys :: "RegistryKey list"

subsection \<open>External collaborators\<close>

text \<open>
  The chain provider and the three fetch services are injected. A call either returns or
  throws; a thrown exception is \<open>Inl\<close>. \<open>getBlock\<close> stands for
  \<^verbatim>\<open>provider.getBlock\<close> followed by the reads of \<^verbatim>\<open>block.hash\<close>, \<^verbatim>\<open>block.number\<close> and
  \<^verbatim>\<open>block.timestamp\<close>, which throw on a null block.
\<close>

datatype error = ChainUnavailable | UnknownBlock

datatype BlockRef = BlockTag string | BlockNum nat

record Block =
  number :: nat
  hash :: string
  blockTimestamp :: nat

record Contract =
  getBlock :: "BlockRef \<Rightarrow> error + Block"
  fetchKeysOpIndex :: "string \<Rightarrow> error + nat"
  operatorFetch :: "string \<Rightarrow> error + RegistryOperator list"
  keyFetch :: "nat \<Rightarrow> nat \<Rightarrow> nat \<Rightarrow> string \<Rightarrow> error + RegistryKey list"

text \<open>
  What an update did, in order: the operator and key fetches it issued and the
  transactions it committed.
\<close>

datatype event =
    OperatorFetch string
  | KeyFetch nat nat nat string
  | ReplaceMeta RegistryMeta
  | SaveOperatorsAndMeta "RegistryOperator list" RegistryMeta
  | SaveKeys "RegistryKey list"

subsection \<open>Diff policy\<close>

text \<open>
  Modelled from the spec: \<^verbatim>\<open>compareMeta\<close> of \<^verbatim>\<open>utils/meta.utils\<close>, which is imported but not
  among the sources. The spec: the previous meta is not null and has the current
  \<^verbatim>\<open>keysOpIndex\<close> and \<^verbatim>\<open>blockHash\<close>.
\<close>

definition compareMeta :: "RegistryMeta option \<Rightarrow> RegistryMeta \<Rightarrow> bool" where
  "compareMeta prevMeta currMeta =
     (case prevMeta of
        None \<Rightarrow> False
      | Some p \<Rightarrow> keysOpIndex p = keysOpIndex currMeta \<and> blockHash p = blockHash currMeta)"

text \<open>
  Modelled from the spec: \<^verbatim>\<open>compareOperators\<close> of \<^verbatim>\<open>utils/operator.utils\<close>, imported
  but not among the sources. The spec: field-wise equality of all operator columns, false
  for a null previous operator.
\<close>

definition compareOperators :: "RegistryOperator option \<Rightarrow> RegistryOperator \<Rightarrow> bool" where
  "compareOperators prevOperator currOperator =
     (case prevOperator of None \<Rightarrow> False | Some p \<Rightarrow> p = currOperator)"

text \<open>
  \<^verbatim>\<open>getToIndex\<close> is abstract in \<^verbatim>\<open>AbstractRegistryService\<close>; the reconciler below takes it
  as a parameter. The key registry's is pinned by its test
  (\<^verbatim>\<open>getToIndex({ totalSigningKeys: 10 })\<close> is 10).
\<close>

definition KeyRegistry_getToIndex :: "RegistryOperator \<Rightarrow> nat" where
  "KeyRegistry_getToIndex currOperator = totalSigningKeys currOperator"

text \<open>
  Modelled from the spec: the validator registry's \<^verbatim>\<open>getToIndex\<close>, whose class is not
  among the sources. The spec: it returns \<^verbatim>\<open>curr.usedSigningKeys\<close>.
\<close>

definition ValidatorRegistry_getToIndex :: "RegistryOperator \<Rightarrow> nat" where
  "ValidatorRegistry_getToIndex currOperator = usedSigningKeys currOperator"

subsection \<open>Store operations\<close>

text \<open>\<^verbatim>\<open>chunk\<close> of \<^verbatim>\<open>@lido-nestjs/utils\<close>: consecutive slices of at most \<open>n\<close> elements.\<close>

function chunk :: "'a list \<Rightarrow> nat \<Rightarrow> 'a list list" where
  "chunk xs n = (if n = 0 \<or> xs = [] then [] else take n xs # chunk (drop n xs) n)"
  by pat_completeness auto
termination
  by (relation "measure (\<lambda>(xs, n). length xs)") auto

declare chunk.simps [simp del]

text \<open>
  \<^verbatim>\<open>insert(rows).onConflict(columns).merge()\<close>: a row whose conflict columns match a
  stored row replaces it in all columns, any other row is appended. The rows of one
  statement are taken in order.
\<close>

fun upsertRow :: "('a \<Rightarrow> 'k) \<Rightarrow> 'a \<Rightarrow> 'a list \<Rightarrow> 'a list" where
  "upsertRow conflict r [] = [r]"
| "upsertRow conflict r (x # xs) =
     (if conflict x = conflict r then r # xs else x # upsertRow conflict r xs)"

definition insertOnConflictMerge :: "('a \<Rightarrow> 'k) \<Rightarrow> 'a list \<Rightarrow> 'a list \<Rightarrow> 'a list" where
  "insertOnConflictMerge conflict rows table = foldl (\<lambda>t r. upsertRow conflict r t) table rows"

text \<open>The conflict targets the reconciler names: \<^verbatim>\<open>['index', 'operator_index']\<close> and \<^verbatim>\<open>'index'\<close>.\<close>

definition keyConflict :: "RegistryKey \<Rightarrow> nat \<times> nat" where
  "keyConflict k = (keyIndex k, operatorIndex k)"

definition operatorConflict :: "RegistryOperator \<Rightarrow> nat" where
  "operatorConflict operator = index operator"

text \<open>
  Modelled from the spec: \<^verbatim>\<open>metaStorage.get\<close> and \<^verbatim>\<open>operatorStorage.findAll\<close>, whose
  classes are not among the sources. The spec: the stored meta or null, and the list of
  stored operators.
\<close>

definition getMetaDataFromStorage :: "Store \<Rightarrow> RegistryMeta option" where
  "getMetaDataFromStorage s = meta s"

definition getOperatorsFromStorage :: "Store \<Rightarrow> RegistryOperator list" where
  "getOperatorsFromStorage s = operators s"

text \<open>
  \<^verbatim>\<open>saveKeys\<close>: one transaction, the keys upserted in chunks of 499. The chunk statements
  are issued in list order on the transaction's connection.
\<close>

definition saveKeys :: "RegistryKey list \<Rightarrow> Store \<Rightarrow> Store" where
  "saveKeys ks s =
     s\<lparr>keys := foldl (\<lambda>t keysChunk. insertOnConflictMerge keyConflict keysChunk t)
                  (keys s) (chunk ks 499)\<rparr>"

text \<open>
  \<^verbatim>\<open>nativeDelete(RegistryKey, { index: { $gte: total }, operatorIndex })\<close>: the rows that
  stay.
\<close>

definition deleteKeysFrom :: "RegistryOperator \<Rightarrow> RegistryKey list \<Rightarrow> RegistryKey list" where
  "deleteKeysFrom operator t =
     filter (\<lambda>k. \<not> (totalSigningKeys operator \<le> keyIndex k \<and> operatorIndex k = index operator)) t"

text \<open>
  \<^verbatim>\<open>saveOperatorsAndMeta\<close>: one transaction that deletes every current operator's keys
  from its total on, upserts the operators in chunks of 499 and replaces the meta row.
\<close>

definition saveOperatorsAndMeta :: "RegistryOperator list \<Rightarrow> RegistryMeta \<Rightarrow> Store \<Rightarrow> Store" where
  "saveOperatorsAndMeta currentOperators currMeta s =
     \<lparr>meta = Some currMeta,
      operators = foldl (\<lambda>t operatorsChunk. insertOnConflictMerge operatorConflict operatorsChunk t)
                    (operators s) (chunk currentOperators 499),
      keys = foldl (\<lambda>t operator. deleteKeysFrom operator t) (keys s) currentOperators\<rparr>"

subsection \<open>The reconciler\<close>

definition getMetaDataFromContract :: "Contract \<Rightarrow> BlockRef \<Rightarrow> error + RegistryMeta" where
  "getMetaDataFromContract c blockHashOrBlockTag =
     (case getBlock c blockHashOrBlockTag of
        Inl e \<Rightarrow> Inl e
      | Inr block \<Rightarrow>
          (case fetchKeysOpIndex c (hash block) of
             Inl e \<Rightarrow> Inl e
           | Inr k \<Rightarrow>
               Inr \<lparr>blockNumber = number block, blockHash = hash block,
                    keysOpIndex = k, timestamp = blockTimestamp block\<rparr>))"

definition getOperatorsFromContract :: "Contract \<Rightarrow> string \<Rightarrow> error + RegistryOperator list" where
  "getOperatorsFromContract c h = operatorFetch c h"

text \<open>\<^verbatim>\<open>previousOperators[currentIndex] ?? null\<close>: an array read past the end is undefined.\<close>

definition prevOperatorAt :: "RegistryOperator list \<Rightarrow> nat \<Rightarrow> RegistryOperator option" where
  "prevOperatorAt previousOperators currentIndex =
     (if currentIndex < length previousOperators then Some (previousOperators ! currentIndex)
      else None)"

text \<open>\<^verbatim>\<open>isSameOperator ? prevOperator.usedSigningKeys : 0\<close>\<close>

definition unchangedKeysMaxIndex :: "RegistryOperator option \<Rightarrow> RegistryOperator \<Rightarrow> nat" where
  "unchangedKeysMaxIndex prevOperator currOperator =
     (if compareOperators prevOperator currOperator
      then (case prevOperator of Some p \<Rightarrow> usedSigningKeys p | None \<Rightarrow> 0)
      else 0)"

text \<open>\<^verbatim>\<open>unchangedKeysMaxIndex <= toIndex ? unchangedKeysMaxIndex : 0\<close>\<close>

definition getFromIndex ::
  "(RegistryOperator \<Rightarrow> nat) \<Rightarrow> RegistryOperator option \<Rightarrow> RegistryOperator \<Rightarrow> nat" where
  "getFromIndex getToIndex prevOperator currOperator =
     (let toIndex = getToIndex currOperator;
          unchanged = unchangedKeysMaxIndex prevOperator currOperator
      in if unchanged \<le> toIndex then unchanged else 0)"

text \<open>
  \<^verbatim>\<open>syncUpdatedKeysWithContract\<close>: the loop over \<^verbatim>\<open>currentOperators.entries()\<close>, the
  position \<open>currentIndex\<close> counted from the caller's 0. Each fetched range is saved in a
  transaction of its own, so a fetch that throws leaves the ranges saved before it.
\<close>

fun syncUpdatedKeysWithContract ::
  "(RegistryOperator \<Rightarrow> nat) \<Rightarrow> Contract \<Rightarrow> RegistryOperator list \<Rightarrow> RegistryOperator list \<Rightarrow>
   string \<Rightarrow> nat \<Rightarrow> Store \<Rightarrow> (error + unit) \<times> Store \<times> event list" where
  "syncUpdatedKeysWithContract getToIndex c previousOperators [] h currentIndex s = (Inr (), s, [])"
| "syncUpdatedKeysWithContract getToIndex c previousOperators (currOperator # rest) h currentIndex s =
     (let prevOperator = prevOperatorAt previousOperators currentIndex;
          toIndex = getToIndex currOperator;
          fromIndex = getFromIndex getToIndex prevOperator currOperator;
          operatorIndex = index currOperator
      in case keyFetch c operatorIndex fromIndex toIndex h of
           Inl e \<Rightarrow> (Inl e, s, [KeyFetch operatorIndex fromIndex toIndex h])
         | Inr result \<Rightarrow>
             (case syncUpdatedKeysWithContract getToIndex c previousOperators rest h
                     (Suc currentIndex) (saveKeys result s) of
                (r, s', t) \<Rightarrow>
                  (r, s', KeyFetch operatorIndex fromIndex toIndex h # SaveKeys result # t)))"

text \<open>
  \<^verbatim>\<open>update\<close>: the result is \<open>Inr None\<close> where the source returns undefined,
  \<open>Inr (Some currMeta)\<close> where it returns \<^verbatim>\<open>currMeta\<close>, and \<open>Inl\<close> where a collaborator
  threw.
\<close>

definition update ::
  "(RegistryOperator \<Rightarrow> nat) \<Rightarrow> Contract \<Rightarrow> BlockRef \<Rightarrow> Store \<Rightarrow>
   (error + RegistryMeta option) \<times> Store \<times> event list" where
  "update getToIndex c blockHashOrBlockTag s =
     (let prevMeta = getMetaDataFromStorage s
      in case getMetaDataFromContract c blockHashOrBlockTag of
           Inl e \<Rightarrow> (Inl e, s, [])
         | Inr currMeta \<Rightarrow>
             (let isSameContractState = compareMeta prevMeta currMeta;
                  previousBlockNumber =
                    (case prevMeta of None \<Rightarrow> - 1 | Some p \<Rightarrow> int (blockNumber p));
                  currentBlockNumber = int (blockNumber currMeta)
              in if previousBlockNumber > currentBlockNumber then (Inr None, s, [])
                 else if isSameContractState
                 then (Inr None, s\<lparr>meta := Some currMeta\<rparr>, [ReplaceMeta currMeta])
                 else
                   (let h = blockHash currMeta;
                        previousOperators = getOperatorsFromStorage s
                    in case getOperatorsFromContract c h of
                         Inl e \<Rightarrow> (Inl e, s, [OperatorFetch h])
                       | Inr currentOperators \<Rightarrow>
                           (case syncUpdatedKeysWithContract getToIndex c previousOperators
                                   currentOperators h 0
                                   (saveOperatorsAndMeta currentOperators currMeta s) of
                              (r, s', t) \<Rightarrow>
                                ((case r of Inl e \<Rightarrow> Inl e | Inr u \<Rightarrow> Inr (Some currMeta)), s',
                                 OperatorFetch h # SaveOperatorsAndMeta currentOperators currMeta # t)))))"

text \<open>
  Reading the tables back, for stating what an update leaves in them: the stored operator
  of a contract index and the stored key of an operator at a key index.
\<close>

definition storedOperator :: "Store \<Rightarrow> nat \<Rightarrow> RegistryOperator option" where
  "storedOperator s i = find (\<lambda>operator. index operator = i) (operators s)"

definition storedKey :: "Store \<Rightarrow> nat \<Rightarrow> nat \<Rightarrow> RegistryKey option" where
  "storedKey s oi i = find (\<lambda>k. keyIndex k = i \<and> operatorIndex k = oi) (keys s)"

text \<open>The key fetches among the events of a trace, in the order they were issued.\<close>

fun isKeyFetch :: "event \<Rightarrow> bool" where
  "isKeyFetch (KeyFetch oi fromIndex toIndex h) = True"
| "isKeyFetch e = False"

definition keyFetches :: "event list \<Rightarrow> event list" where
  "keyFetches t = filter isKeyFetch t"

text \<open>
  The total bound of the data model: every stored key has a stored operator of its
  operator index whose total exceeds the key's index.
\<close>

definition totalBound :: "Store \<Rightarrow> bool" where
  "totalBound s =
     list_all (\<lambda>k. list_ex (\<lambda>operator. index operator = operatorIndex k \<and>
                                       keyIndex k < totalSigningKeys operator) (operators s))
       (keys s)"


section \<open>HTTP key reads\<close>

text \<open>
  \<^verbatim>\<open>KeysService\<close> of \<^verbatim>\<open>src/http/keys/keys.service.ts\<close>. The enum of module types is not among
  the sources; the service tests a module's type against \<^verbatim>\<open>CURATED_ONCHAIN_V1_TYPE\<close>, every
  other type is \<open>OtherModuleType\<close>.
\<close>

datatype STAKING_MODULE_TYPE = CURATED_ONCHAIN_V1_TYPE | OtherModuleType string

record StakingRouterModule =
  moduleType :: STAKING_MODULE_TYPE
  stakingModuleAddress :: string

datatype HttpException = TooEarly | NotFoundException string

text \<open>
  Modelled from the spec: the status of \<^verbatim>\<open>httpExceptionTooEarlyResp\<close>, whose file is not among
  the sources, is 425; \<^verbatim>\<open>NotFoundException\<close> is the framework's 404.
\<close>

fun httpStatus :: "HttpException \<Rightarrow> nat" where
  "httpStatus TooEarly = 425"
| "httpStatus (NotFoundException msg) = 404"

record ELBlockSnapshot =
  snapshotBlockNumber :: nat
  snapshotBlockHash :: string
  snapshotTimestamp :: nat

text \<open>
  Modelled from the spec: the constructor of \<^verbatim>\<open>ELBlockSnapshot\<close>, whose class is not among the
  sources. The spec: the execution-layer block coordinates derived from the meta.
\<close>

definition newELBlockSnapshot :: "RegistryMeta \<Rightarrow> ELBlockSnapshot" where
  "newELBlockSnapshot m =
     \<lparr>snapshotBlockNumber = blockNumber m, snapshotBlockHash = blockHash m,
      snapshotTimestamp = timestamp m\<rparr>"

record KeyQuery =
  queryUsed :: "bool option"
  queryOperatorIndex :: "nat option"

text \<open>
  Modelled from the spec: the three reads of \<^verbatim>\<open>CuratedModuleService\<close>, whose class is not
  among the sources. The spec: the stored keys, filtered by the query or matched by public
  key, together with the stored meta or null.
\<close>

definition getKeysWithMetaStream :: "Store \<Rightarrow> KeyQuery \<Rightarrow> RegistryKey list \<times> RegistryMeta option" where
  "getKeysWithMetaStream s filters =
     (filter (\<lambda>k. (case queryUsed filters of None \<Rightarrow> True | Some u \<Rightarrow> used k = u) \<and>
                   (case queryOperatorIndex filters of None \<Rightarrow> True | Some oi \<Rightarrow> operatorIndex k = oi))
        (keys s),
      meta s)"

definition getKeyWithMetaByPubkey :: "Store \<Rightarrow> string \<Rightarrow> RegistryKey list \<times> RegistryMeta option" where
  "getKeyWithMetaByPubkey s pubkey = (filter (\<lambda>k. key k = pubkey) (keys s), meta s)"

definition getKeysWithMetaByPubkeys :: "Store \<Rightarrow> string list \<Rightarrow> RegistryKey list \<times> RegistryMeta option" where
  "getKeysWithMetaByPubkeys s pubkeys = (filter (\<lambda>k. key k \<in> set pubkeys) (keys s), meta s)"

text \<open>
  The responses carry the service's local \<^verbatim>\<open>elBlockSnapshot\<close>, declared
  \<^verbatim>\<open>ELBlockSnapshot | null\<close>, as it stands at the return.
\<close>

record KeysStreamResponse =
  keysStream :: "RegistryKey list"
  streamSnapshot :: "ELBlockSnapshot option"

record KeyListResponse =
  responseData :: "(RegistryKey \<times> string) list"
  elBlockSnapshot :: "ELBlockSnapshot option"

definition get :: "Store \<Rightarrow> StakingRouterModule list \<Rightarrow> KeyQuery \<Rightarrow> HttpException + KeysStreamResponse" where
  "get s stakingModules filters =
     (if length stakingModules = 0 then Inl TooEarly
      else
        (case getKeysWithMetaStream s
                \<lparr>queryUsed = queryUsed filters, queryOperatorIndex = queryOperatorIndex filters\<rparr> of
           (stream, None) \<Rightarrow> Inl TooEarly
         | (stream, Some m) \<Rightarrow>
             (let snapshot = Some (newELBlockSnapshot m)
              in if snapshot = None then Inl TooEarly
                 else Inr \<lparr>keysStream = stream, streamSnapshot = snapshot\<rparr>)))"

text \<open>
  The loop over the staking modules that \<^verbatim>\<open>getByPubkey\<close> and \<^verbatim>\<open>getByPubkeys\<close> both run, the
  read of the curated module being \<open>curatedRead\<close>: \<open>i\<close> is the loop counter,
  \<open>collectedKeys\<close> and \<open>snapshot\<close> the two locals the loop assigns.
\<close>

fun collectKeys ::
  "(RegistryKey list \<times> RegistryMeta option) \<Rightarrow> StakingRouterModule list \<Rightarrow> nat \<Rightarrow>
   (RegistryKey \<times> string) list list \<Rightarrow> ELBlockSnapshot option \<Rightarrow>
   HttpException + (RegistryKey \<times> string) list list \<times> ELBlockSnapshot option" where
  "collectKeys curatedRead [] i collectedKeys snapshot = Inr (collectedKeys, snapshot)"
| "collectKeys curatedRead (stakingModule # rest) i collectedKeys snapshot =
     (if moduleType stakingModule = CURATED_ONCHAIN_V1_TYPE
      then
        (case curatedRead of
           (curatedKeys, None) \<Rightarrow> Inl TooEarly
         | (curatedKeys, Some m) \<Rightarrow>
             (let keysWithAddress = map (\<lambda>k. (k, stakingModuleAddress stakingModule)) curatedKeys
              in collectKeys curatedRead rest (Suc i) (collectedKeys @ [keysWithAddress])
                   (if i = 0 then Some (newELBlockSnapshot m) else snapshot)))
      else collectKeys curatedRead rest (Suc i) collectedKeys snapshot)"

definition getByPubkey :: "Store \<Rightarrow> StakingRouterModule list \<Rightarrow> string \<Rightarrow> HttpException + KeyListResponse" where
  "getByPubkey s stakingModules pubkey =
     (if length stakingModules = 0 then Inl TooEarly
      else
        (case collectKeys (getKeyWithMetaByPubkey s pubkey) stakingModules 0 [] None of
           Inl e \<Rightarrow> Inl e
         | Inr (collectedKeys, snapshot) \<Rightarrow>
             (if snapshot = None then Inl TooEarly
              else
                (let ks = concat collectedKeys
                 in if length ks = 0
                    then Inl (NotFoundException
                               (''There are no keys with '' @ pubkey @ '' public key in db.''))
                    else Inr \<lparr>responseData = ks, elBlockSnapshot = snapshot\<rparr>))))"

definition getByPubkeys :: "Store \<Rightarrow> StakingRouterModule list \<Rightarrow> string list \<Rightarrow> HttpException + KeyListResponse" where
  "getByPubkeys s stakingModules pubkeys =
     (if length stakingModules = 0 then Inl TooEarly
      else
        (case collectKeys (getKeysWithMetaByPubkeys s pubkeys) stakingModules 0 [] None of
           Inl e \<Rightarrow> Inl e
         | Inr (collectedKeys, snapshot) \<Rightarrow>
             (if snapshot = None then Inl TooEarly
              else Inr \<lparr>responseData = concat collectedKeys, elBlockSnapshot = snapshot\<rparr>)))"

section \<open>Update loop: the stall watchdog\<close>

text \<open>
  \<^verbatim>\<open>ValidatorsUpdateService\<close>. Wall-clock time is a number of milliseconds, as
  \<^verbatim>\<open>new Date().getTime()\<close> returns it, and is handed to every step. The runtime's pending
  timers are part of the state: each is a handle with the time it is due; \<^verbatim>\<open>setTimeout\<close>
  adds one, \<^verbatim>\<open>clearTimeout\<close> removes the one of a handle.
\<close>

record ValidatorsUpdateService =
  lastBlockTimestampSec :: "nat option"
  lastBlockNumber :: "nat option"
  lastSlot :: "nat option"
  updateDeadlineTimer :: "nat option"
  pendingTimers :: "(nat \<times> nat) list"
  nextTimerHandle :: nat

definition UPDATE_VALIDATORS_TIMEOUT_MS :: nat where
  "UPDATE_VALIDATORS_TIMEOUT_MS = 90 * 60 * 1000"

record ValidatorsOutdatedError =
  messageMinutes :: nat
  lastBlock :: "nat option"

datatype ProcessExit = ProcessExit nat ValidatorsOutdatedError

definition clearTimeout :: "nat \<Rightarrow> (nat \<times> nat) list \<Rightarrow> (nat \<times> nat) list" where
  "clearTimeout handle timers = filter (\<lambda>(h, due). h \<noteq> handle) timers"

text \<open>
  \<^verbatim>\<open>this.lastBlockTimestampSec && currTimestampSec - this.lastBlockTimestampSec <
  this.UPDATE_VALIDATORS_TIMEOUT_MS / 1000\<close>: undefined and 0 are falsy.
\<close>

definition isUpdated :: "nat \<Rightarrow> ValidatorsUpdateService \<Rightarrow> bool" where
  "isUpdated now p =
     (let currTimestampSec = real now / 1000
      in case lastBlockTimestampSec p of
           None \<Rightarrow> False
         | Some ts \<Rightarrow>
             ts \<noteq> 0 \<and> currTimestampSec - real ts < real UPDATE_VALIDATORS_TIMEOUT_MS / 1000)"

definition checkValidatorsUpdateTimeout :: "nat \<Rightarrow> ValidatorsUpdateService \<Rightarrow> ValidatorsUpdateService" where
  "checkValidatorsUpdateTimeout now p =
     (let timers =
            (case updateDeadlineTimer p of
               None \<Rightarrow> pendingTimers p
             | Some handle \<Rightarrow>
                 if isUpdated now p then clearTimeout handle (pendingTimers p) else pendingTimers p);
          handle = nextTimerHandle p
      in p\<lparr>updateDeadlineTimer := Some handle,
            pendingTimers := timers @ [(handle, now + UPDATE_VALIDATORS_TIMEOUT_MS)],
            nextTimerHandle := Suc handle\<rparr>)"

text \<open>
  The callback of the deadline timer, run by the runtime once a pending timer is due: it
  builds the error from \<^verbatim>\<open>this.lastBlockNumber\<close> as it is then and calls
  \<^verbatim>\<open>process.exit(1)\<close>. \<open>None\<close> while no timer is due.
\<close>

definition deadline :: "nat \<Rightarrow> ValidatorsUpdateService \<Rightarrow> ProcessExit option" where
  "deadline now p =
     (if list_ex (\<lambda>(h, due). due \<le> now) (pendingTimers p)
      then Some (ProcessExit 1
                   \<lparr>messageMinutes = UPDATE_VALIDATORS_TIMEOUT_MS div (60 * 1000),
                    lastBlock = lastBlockNumber p\<rparr>)
      else None)"

record ValidatorsMeta =
  metaTimestamp :: nat
  metaBlockNumber :: nat
  metaSlot :: nat

text \<open>
  The job of \<^verbatim>\<open>updateValidators\<close>, finishing at \<open>now\<close>. \<open>result\<close> is what
  \<^verbatim>\<open>validatorsService.updateValidators('finalized')\<close> did: it threw (\<open>Inl\<close>), and the rest of
  the job is skipped, or it resolved to a meta that may be null.
\<close>

definition updateValidators ::
  "nat \<Rightarrow> error + ValidatorsMeta option \<Rightarrow> ValidatorsUpdateService \<Rightarrow> ValidatorsUpdateService" where
  "updateValidators now result p =
     (case result of
        Inl e \<Rightarrow> p
      | Inr m \<Rightarrow>
          checkValidatorsUpdateTimeout now
            (p\<lparr>lastBlockTimestampSec :=
                  (case m of Some x \<Rightarrow> Some (metaTimestamp x) | None \<Rightarrow> lastBlockTimestampSec p),
                lastBlockNumber :=
                  (case m of Some x \<Rightarrow> Some (metaBlockNumber x) | None \<Rightarrow> lastBlockNumber p),
                lastSlot :=
                  (case m of Some x \<Rightarrow> Some (metaSlot x) | None \<Rightarrow> lastSlot p)\<rparr>))"

text \<open>The service as constructed, and \<^verbatim>\<open>initialize\<close> up to its first job: the timer is armed.\<close>

definition newValidatorsUpdateService :: ValidatorsUpdateService where
  "newValidatorsUpdateService =
     \<lparr>lastBlockTimestampSec = None, lastBlockNumber = None, lastSlot = None,
      updateDeadlineTimer = None, pendingTimers = [], nextTimerHandle = 0\<rparr>"

definition initialize :: "nat \<Rightarrow> ValidatorsUpdateService" where
  "initialize now = checkValidatorsUpdateTimeout now newValidatorsUpdateService"

section \<open>Assumptions on the contract\<close>

text \<open>
  Modelled from the spec: what the fetch services, which are not among the sources, promise.
  The key fetcher returns records that carry the operator index asked for and an index in
  the half-open range asked for.
\<close>

definition keyFetchInRange :: "Contract \<Rightarrow> bool" where
  "keyFetchInRange c =
     (\<forall>oi fromIndex toIndex h ks. keyFetch c oi fromIndex toIndex h = Inr ks \<longrightarrow>
        (\<forall>k \<in> set ks. operatorIndex k = oi \<and> fromIndex \<le> keyIndex k \<and> keyIndex k < toIndex))"

text \<open>
  Modelled from the spec: operator indices are assigned by the contract and never reused, so
  a fetched operator list holds each index once.
\<close>

definition operatorFetchDistinct :: "Contract \<Rightarrow> bool" where
  "operatorFetchDistinct c =
     (\<forall>h ops. operatorFetch c h = Inr ops \<longrightarrow> distinct (map index ops))"

text \<open>The right border of every fetched operator is at most its total.\<close>

definition toIndexWithinTotal :: "(RegistryOperator \<Rightarrow> nat) \<Rightarrow> Contract \<Rightarrow> bool" where
  "toIndexWithinTotal getToIndex c =
     (\<forall>h ops. operatorFetch c h = Inr ops \<longrightarrow>
        (\<forall>operator \<in> set ops. getToIndex operator \<le> totalSigningKeys operator))"


section \<open>Scenarios\<close>

text \<open>
  The spec's end-to-end scenarios as concrete inputs. A chain whose registry holds the keys
  \<open>ks\<close> serves the range asked for.
\<close>

definition signingKey :: "nat \<Rightarrow> nat \<Rightarrow> string \<Rightarrow> bool \<Rightarrow> RegistryKey" where
  "signingKey oi i pubkey u =
     \<lparr>keyIndex = i, operatorIndex = oi, key = pubkey, depositSignature = ''sig'', used = u,
      keyModuleAddress = ''0xM''\<rparr>"

definition keysInRange :: "RegistryKey list \<Rightarrow> nat \<Rightarrow> nat \<Rightarrow> nat \<Rightarrow> RegistryKey list" where
  "keysInRange ks oi fromIndex toIndex =
     filter (\<lambda>k. operatorIndex k = oi \<and> fromIndex \<le> keyIndex k \<and> keyIndex k < toIndex) ks"

definition emptyStore :: Store where
  "emptyStore = \<lparr>meta = None, operators = [], keys = []\<rparr>"

text \<open>S1, bootstrap: block 100 with hash 0xAA, one operator of three keys, the first used.\<close>

definition S1_meta :: RegistryMeta where
  "S1_meta = \<lparr>blockNumber = 100, blockHash = ''0xAA'', keysOpIndex = 7, timestamp = 1700\<rparr>"

definition S1_operator :: RegistryOperator where
  "S1_operator =
     \<lparr>index = 0, active = True, name = ''op0'', rewardAddress = ''0x01'', stakingLimit = 3,
      stoppedValidators = 0, totalSigningKeys = 3, usedSigningKeys = 1, moduleAddress = ''0xM''\<rparr>"

definition S1_keys :: "RegistryKey list" where
  "S1_keys = [signingKey 0 0 ''k0'' True, signingKey 0 1 ''k1'' False, signingKey 0 2 ''k2'' False]"

definition S1_contract :: Contract where
  "S1_contract =
     \<lparr>getBlock = (\<lambda>r. Inr \<lparr>number = 100, hash = ''0xAA'', blockTimestamp = 1700\<rparr>),
      fetchKeysOpIndex = (\<lambda>h. Inr 7),
      operatorFetch = (\<lambda>h. Inr [S1_operator]),
      keyFetch = (\<lambda>oi fromIndex toIndex h. Inr (keysInRange S1_keys oi fromIndex toIndex))\<rparr>"

definition S1_store :: Store where
  "S1_store = \<lparr>meta = Some S1_meta, operators = [S1_operator], keys = S1_keys\<rparr>"

text \<open>S4, key used: block 101 with hash 0xBB, the operator's second key is used now.\<close>

definition S4_meta :: RegistryMeta where
  "S4_meta = \<lparr>blockNumber = 101, blockHash = ''0xBB'', keysOpIndex = 8, timestamp = 1712\<rparr>"

definition S4_operator :: RegistryOperator where
  "S4_operator = S1_operator\<lparr>usedSigningKeys := 2\<rparr>"

definition S4_keys :: "RegistryKey list" where
  "S4_keys = [signingKey 0 0 ''k0'' True, signingKey 0 1 ''k1'' True, signingKey 0 2 ''k2'' False]"

definition S4_contract :: Contract where
  "S4_contract =
     \<lparr>getBlock = (\<lambda>r. Inr \<lparr>number = 101, hash = ''0xBB'', blockTimestamp = 1712\<rparr>),
      fetchKeysOpIndex = (\<lambda>h. Inr 8),
      operatorFetch = (\<lambda>h. Inr [S4_operator]),
      keyFetch = (\<lambda>oi fromIndex toIndex h. Inr (keysInRange S4_keys oi fromIndex toIndex))\<rparr>"

definition S4_store :: Store where
  "S4_store = \<lparr>meta = Some S4_meta, operators = [S4_operator], keys = S4_keys\<rparr>"

text \<open>S6, stale RPC: the node resolves the reference to block 90.\<close>

definition S6_meta :: RegistryMeta where
  "S6_meta = \<lparr>blockNumber = 90, blockHash = ''0x99'', keysOpIndex = 6, timestamp = 1580\<rparr>"

definition S6_contract :: Contract where
  "S6_contract =
     \<lparr>getBlock = (\<lambda>r. Inr \<lparr>number = 90, hash = ''0x99'', blockTimestamp = 1580\<rparr>),
      fetchKeysOpIndex = (\<lambda>h. Inr 6),
      operatorFetch = (\<lambda>h. Inr []),
      keyFetch = (\<lambda>oi fromIndex toIndex h. Inr [])\<rparr>"

text \<open>
  A second operator, and the two operators read back from the store in the order of
  their insertion, the second having been saved first.
\<close>

definition second_operator :: RegistryOperator where
  "second_operator =
     \<lparr>index = 1, active = True, name = ''op1'', rewardAddress = ''0x02'', stakingLimit = 2,
      stoppedValidators = 0, totalSigningKeys = 2, usedSigningKeys = 1, moduleAddress = ''0xM''\<rparr>"

definition two_operator_keys :: "RegistryKey list" where
  "two_operator_keys = S1_keys @ [signingKey 1 0 ''k3'' True, signingKey 1 1 ''k4'' False]"

definition two_operator_contract :: Contract where
  "two_operator_contract =
     \<lparr>getBlock = (\<lambda>r. Inr \<lparr>number = 101, hash = ''0xBB'', blockTimestamp = 1712\<rparr>),
      fetchKeysOpIndex = (\<lambda>h. Inr 8),
      operatorFetch = (\<lambda>h. Inr [S1_operator, second_operator]),
      keyFetch = (\<lambda>oi fromIndex toIndex h. Inr (keysInRange two_operator_keys oi fromIndex toIndex))\<rparr>"

definition swapped_store :: Store where
  "swapped_store =
     \<lparr>meta = Some S1_meta, operators = [second_operator, S1_operator], keys = two_operator_keys\<rparr>"

text \<open>
  The two operators stored in index order, and a later block of a chain on which the used
  key of the first operator was rewritten (as a modified testnet contract can do) while
  only the second operator changed: its second key is used now.
\<close>

definition two_operator_store :: Store where
  "two_operator_store =
     \<lparr>meta = Some S1_meta, operators = [S1_operator, second_operator], keys = two_operator_keys\<rparr>"

definition rewritten_meta :: RegistryMeta where
  "rewritten_meta = \<lparr>blockNumber = 102, blockHash = ''0xCC'', keysOpIndex = 9, timestamp = 1724\<rparr>"

definition rewritten_keys :: "RegistryKey list" where
  "rewritten_keys =
     [signingKey 0 0 ''rewritten'' True, signingKey 0 1 ''k1'' False, signingKey 0 2 ''k2'' False,
      signingKey 1 0 ''k3'' True, signingKey 1 1 ''k4'' True]"

definition rewritten_contract :: Contract where
  "rewritten_contract =
     \<lparr>getBlock = (\<lambda>r. Inr \<lparr>number = 102, hash = ''0xCC'', blockTimestamp = 1724\<rparr>),
      fetchKeysOpIndex = (\<lambda>h. Inr 9),
      operatorFetch = (\<lambda>h. Inr [S1_operator, second_operator\<lparr>usedSigningKeys := 2\<rparr>]),
      keyFetch = (\<lambda>oi fromIndex toIndex h. Inr (keysInRange rewritten_keys oi fromIndex toIndex))\<rparr>"

definition rewritten_store :: Store where
  "rewritten_store =
     \<lparr>meta = Some rewritten_meta,
      operators = [S1_operator, second_operator\<lparr>usedSigningKeys := 2\<rparr>],
      keys = S1_keys @ [signingKey 1 0 ''k3'' True, signingKey 1 1 ''k4'' True]\<rparr>"

text \<open>
  A key phase that aborted: at block 101 of S4 the key fetch throws, after the operators
  and the meta were committed. Then block 103 of the same chain, on which the operator's
  third key is used too; no used key was rewritten.
\<close>

definition S4_failing_contract :: Contract where
  "S4_failing_contract =
     \<lparr>getBlock = (\<lambda>r. Inr \<lparr>number = 101, hash = ''0xBB'', blockTimestamp = 1712\<rparr>),
      fetchKeysOpIndex = (\<lambda>h. Inr 8),
      operatorFetch = (\<lambda>h. Inr [S4_operator]),
      keyFetch = (\<lambda>oi fromIndex toIndex h. Inl ChainUnavailable)\<rparr>"

definition aborted_store :: Store where
  "aborted_store = \<lparr>meta = Some S4_meta, operators = [S4_operator], keys = S1_keys\<rparr>"

definition all_used_meta :: RegistryMeta where
  "all_used_meta = \<lparr>blockNumber = 103, blockHash = ''0xDD'', keysOpIndex = 9, timestamp = 1736\<rparr>"

definition all_used_operator :: RegistryOperator where
  "all_used_operator = S1_operator\<lparr>usedSigningKeys := 3\<rparr>"

definition all_used_keys :: "RegistryKey list" where
  "all_used_keys = [signingKey 0 0 ''k0'' True, signingKey 0 1 ''k1'' True, signingKey 0 2 ''k2'' True]"

definition all_used_contract :: Contract where
  "all_used_contract =
     \<lparr>getBlock = (\<lambda>r. Inr \<lparr>number = 103, hash = ''0xDD'', blockTimestamp = 1736\<rparr>),
      fetchKeysOpIndex = (\<lambda>h. Inr 9),
      operatorFetch = (\<lambda>h. Inr [all_used_operator]),
      keyFetch = (\<lambda>oi fromIndex toIndex h. Inr (keysInRange all_used_keys oi fromIndex toIndex))\<rparr>"

definition all_used_store :: Store where
  "all_used_store = \<lparr>meta = Some all_used_meta, operators = [all_used_operator], keys = all_used_keys\<rparr>"

text \<open>
  An unchanged operator whose \<^verbatim>\<open>usedSigningKeys\<close> exceeds its total, as after the deletion
  of used keys on a testnet, at a block where the contract changed elsewhere.
\<close>

definition overused_operator :: RegistryOperator where
  "overused_operator = S1_operator\<lparr>usedSigningKeys := 5\<rparr>"

definition overused_store :: Store where
  "overused_store = \<lparr>meta = Some S1_meta, operators = [overused_operator], keys = S1_keys\<rparr>"

definition overused_contract :: Contract where
  "overused_contract =
     \<lparr>getBlock = (\<lambda>r. Inr \<lparr>number = 101, hash = ''0xBB'', blockTimestamp = 1712\<rparr>),
      fetchKeysOpIndex = (\<lambda>h. Inr 8),
      operatorFetch = (\<lambda>h. Inr [overused_operator]),
      keyFetch = (\<lambda>oi fromIndex toIndex h. Inr (keysInRange S1_keys oi fromIndex toIndex))\<rparr>"

text \<open>Rows of another module with the indices of stored rows.\<close>

definition other_module_key :: RegistryKey where
  "other_module_key = (signingKey 0 0 ''n0'' False)\<lparr>keyModuleAddress := ''0xN''\<rparr>"

definition other_module_operator :: RegistryOperator where
  "other_module_operator =
     \<lparr>index = 0, active = True, name = ''other'', rewardAddress = ''0x09'', stakingLimit = 1,
      stoppedValidators = 0, totalSigningKeys = 1, usedSigningKeys = 0, moduleAddress = ''0xN''\<rparr>"

text \<open>A curated staking module, and one of another type.\<close>

definition curated_module :: StakingRouterModule where
  "curated_module = \<lparr>moduleType = CURATED_ONCHAIN_V1_TYPE, stakingModuleAddress = ''0xM''\<rparr>"

definition community_module :: StakingRouterModule where
  "community_module =
     \<lparr>moduleType = OtherModuleType ''community-onchain-v1'', stakingModuleAddress = ''0xC''\<rparr>"

section \<open>Store operations: lemmas\<close>

lemma concat_chunk: "0 < n \<Longrightarrow> concat (chunk xs n) = xs"
proof (induction xs n rule: chunk.induct)
  case (1 xs n)
  show ?case
  proof (cases "xs = []")
    case True
    then show ?thesis by (simp add: chunk.simps)
  next
    case False
    with 1 have "concat (chunk (drop n xs) n) = drop n xs" by simp
    with False 1(2) show ?thesis by (subst chunk.simps) simp
  qed
qed

lemma insertOnConflictMerge_Nil [simp]: "insertOnConflictMerge kf [] t = t"
  by (simp add: insertOnConflictMerge_def)

lemma insertOnConflictMerge_Cons [simp]:
  "insertOnConflictMerge kf (r # rows) t = insertOnConflictMerge kf rows (upsertRow kf r t)"
  by (simp add: insertOnConflictMerge_def)

lemma insertOnConflictMerge_append:
  "insertOnConflictMerge kf (xs @ ys) t = insertOnConflictMerge kf ys (insertOnConflictMerge kf xs t)"
  by (simp add: insertOnConflictMerge_def)

lemma insertOnConflictMerge_concat:
  "foldl (\<lambda>t rows. insertOnConflictMerge kf rows t) t xss = insertOnConflictMerge kf (concat xss) t"
  by (induction xss arbitrary: t) (simp_all add: insertOnConflictMerge_append)

text \<open>Chunking does not change what an upsert stores.\<close>

lemma insertOnConflictMerge_chunk:
  "0 < n \<Longrightarrow>
   foldl (\<lambda>t rows. insertOnConflictMerge kf rows t) t (chunk xs n) = insertOnConflictMerge kf xs t"
  by (simp add: insertOnConflictMerge_concat concat_chunk)

lemma keys_saveKeys: "keys (saveKeys ks s) = insertOnConflictMerge keyConflict ks (keys s)"
  by (simp add: saveKeys_def insertOnConflictMerge_chunk)

lemma operators_saveKeys [simp]: "operators (saveKeys ks s) = operators s"
  by (simp add: saveKeys_def)

lemma meta_saveKeys [simp]: "meta (saveKeys ks s) = meta s"
  by (simp add: saveKeys_def)

lemma operators_saveOperatorsAndMeta:
  "operators (saveOperatorsAndMeta ops m s) =
   insertOnConflictMerge operatorConflict ops (operators s)"
  by (simp add: saveOperatorsAndMeta_def insertOnConflictMerge_chunk)

lemma deleteKeys_fold:
  "foldl (\<lambda>t operator. deleteKeysFrom operator t) t ops =
   filter (\<lambda>k. \<forall>operator \<in> set ops.
      \<not> (totalSigningKeys operator \<le> keyIndex k \<and> operatorIndex k = index operator)) t"
proof (induction ops arbitrary: t)
  case Nil
  then show ?case by simp
next
  case (Cons a ops)
  have "foldl (\<lambda>t operator. deleteKeysFrom operator t) t (a # ops) =
        foldl (\<lambda>t operator. deleteKeysFrom operator t) (deleteKeysFrom a t) ops"
    by simp
  also have "\<dots> = filter (\<lambda>k. \<forall>operator \<in> set ops.
       \<not> (totalSigningKeys operator \<le> keyIndex k \<and> operatorIndex k = index operator))
       (deleteKeysFrom a t)"
    by (rule Cons.IH)
  also have "\<dots> = filter (\<lambda>k. \<forall>operator \<in> set (a # ops).
       \<not> (totalSigningKeys operator \<le> keyIndex k \<and> operatorIndex k = index operator)) t"
    unfolding deleteKeysFrom_def filter_filter by (rule filter_cong) auto
  finally show ?case .
qed

lemma keys_saveOperatorsAndMeta:
  "keys (saveOperatorsAndMeta ops m s) =
   filter (\<lambda>k. \<forall>operator \<in> set ops.
      \<not> (totalSigningKeys operator \<le> keyIndex k \<and> operatorIndex k = index operator)) (keys s)"
  by (simp add: saveOperatorsAndMeta_def deleteKeys_fold)

lemma meta_saveOperatorsAndMeta [simp]: "meta (saveOperatorsAndMeta ops m s) = Some m"
  by (simp add: saveOperatorsAndMeta_def)

lemma set_upsertRow_subset: "set (upsertRow kf r t) \<subseteq> insert r (set t)"
  by (induction t) auto

lemma upsertRow_mem: "r \<in> set (upsertRow kf r t)"
  by (induction t) auto

lemma upsertRow_keep: "x \<in> set t \<Longrightarrow> kf x \<noteq> kf r \<Longrightarrow> x \<in> set (upsertRow kf r t)"
  by (induction t) auto

lemma find_upsertRow:
  "find (\<lambda>x. kf x = q) (upsertRow kf r t) = (if kf r = q then Some r else find (\<lambda>x. kf x = q) t)"
  by (induction t) auto

lemma set_insertOnConflictMerge_subset:
  "set (insertOnConflictMerge kf rows t) \<subseteq> set rows \<union> set t"
proof (induction rows arbitrary: t)
  case Nil
  then show ?case by simp
next
  case (Cons r rows)
  have "set (insertOnConflictMerge kf rows (upsertRow kf r t)) \<subseteq> set rows \<union> set (upsertRow kf r t)"
    by (rule Cons.IH)
  also have "\<dots> \<subseteq> set rows \<union> insert r (set t)"
    using set_upsertRow_subset [of kf r t] by blast
  finally show ?case by auto
qed

lemma insertOnConflictMerge_keep:
  "x \<in> set t \<Longrightarrow> kf x \<notin> kf ` set rows \<Longrightarrow> x \<in> set (insertOnConflictMerge kf rows t)"
proof (induction rows arbitrary: t)
  case Nil
  then show ?case by simp
next
  case (Cons r rows)
  from Cons.prems have "x \<in> set (upsertRow kf r t)" by (intro upsertRow_keep) auto
  moreover from Cons.prems have "kf x \<notin> kf ` set rows" by auto
  ultimately show ?case using Cons.IH by simp
qed

lemma insertOnConflictMerge_mem:
  "distinct (map kf rows) \<Longrightarrow> r \<in> set rows \<Longrightarrow> r \<in> set (insertOnConflictMerge kf rows t)"
proof (induction rows arbitrary: t)
  case Nil
  then show ?case by simp
next
  case (Cons a rows)
  show ?case
  proof (cases "r = a")
    case True
    have "a \<in> set (upsertRow kf a t)" by (rule upsertRow_mem)
    moreover from Cons.prems have "kf a \<notin> kf ` set rows" by auto
    ultimately show ?thesis using True by (simp add: insertOnConflictMerge_keep)
  next
    case False
    with Cons show ?thesis by auto
  qed
qed

lemma find_app:
  "find P (xs @ ys) = (case find P xs of None \<Rightarrow> find P ys | Some x \<Rightarrow> Some x)"
  by (induction xs) auto

lemma find_SomeD: "find P xs = Some x \<Longrightarrow> x \<in> set xs \<and> P x"
  by (induction xs) (auto split: if_splits)


text \<open>The last row of a statement with a given conflict target wins.\<close>

lemma find_insertOnConflictMerge:
  "find (\<lambda>x. kf x = q) (insertOnConflictMerge kf rows t) =
   (case find (\<lambda>r. kf r = q) (rev rows) of Some r \<Rightarrow> Some r | None \<Rightarrow> find (\<lambda>x. kf x = q) t)"
proof (induction rows arbitrary: t)
  case Nil
  then show ?case by simp
next
  case (Cons a rows)
  show ?case
    by (simp add: Cons.IH find_upsertRow find_app split: option.splits)
qed

lemma keyConflict_eq:
  "(\<lambda>k. keyConflict k = (i, oi)) = (\<lambda>k. keyIndex k = i \<and> operatorIndex k = oi)"
  by (auto simp: keyConflict_def)

lemma operatorConflict_eq:
  "(\<lambda>operator. operatorConflict operator = j) = (\<lambda>operator. index operator = j)"
  by (auto simp: operatorConflict_def)

lemma storedKey_saveKeys:
  "storedKey (saveKeys ks s) oi i =
     (case find (\<lambda>k. keyIndex k = i \<and> operatorIndex k = oi) (rev ks) of
        Some k \<Rightarrow> Some k | None \<Rightarrow> storedKey s oi i)"
  unfolding storedKey_def keys_saveKeys keyConflict_eq [symmetric]
  by (rule find_insertOnConflictMerge)

lemma storedOperator_saveOperatorsAndMeta:
  "storedOperator (saveOperatorsAndMeta ops m s) j =
     (case find (\<lambda>operator. index operator = j) (rev ops) of
        Some operator \<Rightarrow> Some operator | None \<Rightarrow> storedOperator s j)"
  unfolding storedOperator_def operators_saveOperatorsAndMeta operatorConflict_eq [symmetric]
  by (rule find_insertOnConflictMerge)


lemma totalBound_iff:
  "totalBound s \<longleftrightarrow>
     (\<forall>k \<in> set (keys s). \<exists>operator \<in> set (operators s).
        index operator = operatorIndex k \<and> keyIndex k < totalSigningKeys operator)"
  by (simp add: totalBound_def list_all_iff list_ex_iff)

lemma totalBound_emptyStore: "totalBound emptyStore"
  by (simp add: totalBound_def emptyStore_def)

section \<open>Evaluating the model\<close>

lemmas reconciler_defs =
  update_def getMetaDataFromContract_def getMetaDataFromStorage_def getOperatorsFromStorage_def
  getOperatorsFromContract_def saveOperatorsAndMeta_def saveKeys_def insertOnConflictMerge_def
  keyConflict_def operatorConflict_def deleteKeysFrom_def compareMeta_def compareOperators_def
  getFromIndex_def unchangedKeysMaxIndex_def prevOperatorAt_def KeyRegistry_getToIndex_def
  Let_def chunk.simps

lemmas scenario_defs =
  signingKey_def keysInRange_def emptyStore_def S1_meta_def S1_operator_def S1_keys_def
  S1_contract_def S1_store_def S4_meta_def S4_operator_def S4_keys_def S4_contract_def
  S4_store_def S6_meta_def S6_contract_def second_operator_def two_operator_keys_def
  two_operator_contract_def swapped_store_def two_operator_store_def rewritten_meta_def
  rewritten_keys_def rewritten_contract_def rewritten_store_def S4_failing_contract_def
  aborted_store_def all_used_meta_def all_used_operator_def all_used_keys_def
  all_used_contract_def all_used_store_def overused_operator_def overused_store_def
  overused_contract_def other_module_key_def other_module_operator_def curated_module_def
  community_module_def

text \<open>The scenarios S1 and S4 of the spec, run on the model.\<close>

lemma S1_bootstrap:
  "update KeyRegistry_getToIndex S1_contract (BlockNum 100) emptyStore =
     (Inr (Some S1_meta), S1_store,
      [OperatorFetch ''0xAA'', SaveOperatorsAndMeta [S1_operator] S1_meta,
       KeyFetch 0 0 3 ''0xAA'', SaveKeys S1_keys])"
  by (simp add: reconciler_defs scenario_defs)

lemma S4_key_used:
  "update KeyRegistry_getToIndex S4_contract (BlockNum 101) S1_store =
     (Inr (Some S4_meta), S4_store,
      [OperatorFetch ''0xBB'', SaveOperatorsAndMeta [S4_operator] S4_meta,
       KeyFetch 0 0 3 ''0xBB'', SaveKeys S4_keys])"
  by (simp add: reconciler_defs scenario_defs)

section \<open>The reconciler: the paths of an update\<close>

lemma update_fast_path:
  assumes "meta s = Some prevMeta"
    and "getMetaDataFromContract c blockRef = Inr currMeta"
    and "keysOpIndex prevMeta = keysOpIndex currMeta"
    and "blockHash prevMeta = blockHash currMeta"
    and "blockNumber prevMeta \<le> blockNumber currMeta"
  shows "update g c blockRef s = (Inr None, s\<lparr>meta := Some currMeta\<rparr>, [ReplaceMeta currMeta])"
proof -
  have same: "compareMeta (Some prevMeta) currMeta"
    using assms(3,4) by (simp add: compareMeta_def)
  have notStale: "\<not> int (blockNumber prevMeta) > int (blockNumber currMeta)"
    using assms(5) by simp
  show ?thesis
    unfolding update_def getMetaDataFromStorage_def
    using assms(1,2) same notStale by (simp add: Let_def)
qed

lemma sync_meta:
  "syncUpdatedKeysWithContract g c prev ops h n s = (r, s', t) \<Longrightarrow> meta s' = meta s"
proof (induction ops arbitrary: n s r s' t)
  case Nil
  then show ?case by simp
next
  case (Cons currOperator rest)
  let ?from = "getFromIndex g (prevOperatorAt prev n) currOperator"
  show ?case
  proof (cases "keyFetch c (index currOperator) ?from (g currOperator) h")
    case (Inl e)
    with Cons.prems show ?thesis by (simp add: Let_def)
  next
    case (Inr result)
    obtain r1 s1 t1 where rec:
      "syncUpdatedKeysWithContract g c prev rest h (Suc n) (saveKeys result s) = (r1, s1, t1)"
      by (cases "syncUpdatedKeysWithContract g c prev rest h (Suc n) (saveKeys result s)") auto
    with Cons.prems Inr have "s' = s1" by (simp add: Let_def)
    with Cons.IH [OF rec] show ?thesis by simp
  qed
qed

lemma update_stores_meta:
  assumes "getMetaDataFromContract c blockRef = Inr currMeta"
    and "update g c blockRef s0 = (Inr r1, s1, t1)"
    and "t1 \<noteq> []"
  shows "meta s1 = Some currMeta"
proof -
  let ?prev = "case getMetaDataFromStorage s0 of None \<Rightarrow> - 1 | Some p \<Rightarrow> int (blockNumber p)"
  consider (stale) "?prev > int (blockNumber currMeta)"
    | (fast) "\<not> ?prev > int (blockNumber currMeta)" "compareMeta (getMetaDataFromStorage s0) currMeta"
    | (slow) "\<not> ?prev > int (blockNumber currMeta)" "\<not> compareMeta (getMetaDataFromStorage s0) currMeta"
    by blast
  then show ?thesis
  proof cases
    case stale
    with assms show ?thesis by (simp add: update_def Let_def)
  next
    case fast
    with assms show ?thesis by (auto simp: update_def Let_def)
  next
    case slow
    show ?thesis
    proof (cases "getOperatorsFromContract c (blockHash currMeta)")
      case (Inl e)
      with assms slow show ?thesis by (simp add: update_def Let_def)
    next
      case ops: (Inr currentOperators)
      obtain r2 s2 t2 where sync:
        "syncUpdatedKeysWithContract g c (getOperatorsFromStorage s0) currentOperators
           (blockHash currMeta) 0 (saveOperatorsAndMeta currentOperators currMeta s0) = (r2, s2, t2)"
        by (cases "syncUpdatedKeysWithContract g c (getOperatorsFromStorage s0) currentOperators
           (blockHash currMeta) 0 (saveOperatorsAndMeta currentOperators currMeta s0)") auto
      with assms slow ops have "s1 = s2" by (simp add: update_def Let_def)
      with sync_meta [OF sync] show ?thesis by simp
    qed
  qed
qed

lemma S1_resolved: "getMetaDataFromContract S1_contract (BlockNum 100) = Inr S1_meta"
  by (simp add: getMetaDataFromContract_def S1_contract_def S1_meta_def)

text \<open>
  C1. When the stored meta has the \<^verbatim>\<open>keysOpIndex\<close> and \<^verbatim>\<open>blockHash\<close> of the meta the
  contract resolves to, the call takes the fast path: it issues no operator fetch and no
  key fetch, its one transaction replaces the meta row with the resolved meta, and the
  operator and key tables are untouched. A block hash names one block, so the stored block
  number is not above the resolved one. Of two consecutive calls against the same contract
  state, the first having returned and written, the second replaces the meta row with an
  identical one: the store after the second call is the store after the first.
\<close>

theorem update_same_state_fast_path:
  assumes "getMetaDataFromContract c blockRef = Inr currMeta"
  shows "(meta s = Some prevMeta \<and> keysOpIndex prevMeta = keysOpIndex currMeta \<and>
          blockHash prevMeta = blockHash currMeta \<and> blockNumber prevMeta \<le> blockNumber currMeta \<longrightarrow>
            update g c blockRef s = (Inr None, s\<lparr>meta := Some currMeta\<rparr>, [ReplaceMeta currMeta]))
       \<and> (update g c blockRef s0 = (Inr r1, s1, t1) \<and> t1 \<noteq> [] \<longrightarrow>
            update g c blockRef s1 = (Inr None, s1, [ReplaceMeta currMeta]))"
proof (intro conjI impI)
  assume "meta s = Some prevMeta \<and> keysOpIndex prevMeta = keysOpIndex currMeta \<and>
          blockHash prevMeta = blockHash currMeta \<and> blockNumber prevMeta \<le> blockNumber currMeta"
  with assms show "update g c blockRef s = (Inr None, s\<lparr>meta := Some currMeta\<rparr>, [ReplaceMeta currMeta])"
    by (intro update_fast_path [of s prevMeta c blockRef currMeta g]) simp_all
next
  assume first: "update g c blockRef s0 = (Inr r1, s1, t1) \<and> t1 \<noteq> []"
  with assms have stored: "meta s1 = Some currMeta"
    by (intro update_stores_meta [of c blockRef currMeta g s0 r1 s1 t1]) simp_all
  then have "update g c blockRef s1 = (Inr None, s1\<lparr>meta := Some currMeta\<rparr>, [ReplaceMeta currMeta])"
    using assms by (intro update_fast_path [of s1 currMeta c blockRef currMeta g]) simp_all
  moreover from stored have "s1\<lparr>meta := Some currMeta\<rparr> = s1" by simp
  ultimately show "update g c blockRef s1 = (Inr None, s1, [ReplaceMeta currMeta])" by simp
qed

theorem update_same_state_fast_path_witness:
  "update KeyRegistry_getToIndex S1_contract (BlockNum 100) emptyStore =
     (Inr (Some S1_meta), S1_store,
      [OperatorFetch ''0xAA'', SaveOperatorsAndMeta [S1_operator] S1_meta,
       KeyFetch 0 0 3 ''0xAA'', SaveKeys S1_keys])
   \<and> meta S1_store = Some S1_meta
   \<and> update KeyRegistry_getToIndex S1_contract (BlockNum 100) S1_store =
     (Inr None, S1_store, [ReplaceMeta S1_meta])"
proof -
  note twice = update_same_state_fast_path [OF S1_resolved,
      of S1_store S1_meta KeyRegistry_getToIndex emptyStore "Some S1_meta" S1_store
        "[OperatorFetch ''0xAA'', SaveOperatorsAndMeta [S1_operator] S1_meta,
          KeyFetch 0 0 3 ''0xAA'', SaveKeys S1_keys]"]
  have second: "update KeyRegistry_getToIndex S1_contract (BlockNum 100) S1_store =
     (Inr None, S1_store, [ReplaceMeta S1_meta])"
    using twice S1_bootstrap by simp
  have "meta S1_store = Some S1_meta" by (simp add: S1_store_def)
  with S1_bootstrap second show ?thesis by simp
qed

text \<open>
  C2. When the stored meta is of a later block than the one the contract resolves to, the
  update returns without an error, fetches no operators and no keys, and commits no
  transaction: the store is the one before the call.
\<close>

theorem update_stale_block_noop:
  assumes "meta s = Some prevMeta"
    and "getMetaDataFromContract c blockRef = Inr currMeta"
    and "blockNumber prevMeta > blockNumber currMeta"
  shows "update g c blockRef s = (Inr None, s, [])"
  using assms by (simp add: update_def getMetaDataFromStorage_def)

theorem update_stale_block_noop_witness:
  "update KeyRegistry_getToIndex S6_contract (BlockTag ''finalized'') S1_store = (Inr None, S1_store, [])"
proof -
  have stored: "meta S1_store = Some S1_meta" by (simp add: S1_store_def)
  have resolved: "getMetaDataFromContract S6_contract (BlockTag ''finalized'') = Inr S6_meta"
    by (simp add: getMetaDataFromContract_def S6_contract_def S6_meta_def)
  have older: "blockNumber S1_meta > blockNumber S6_meta"
    by (simp add: S1_meta_def S6_meta_def)
  show ?thesis by (rule update_stale_block_noop [OF stored resolved older])
qed

section \<open>The reconciler: the total bound\<close>

lemma totalBound_saveKeys:
  assumes "totalBound s"
    and "currOperator \<in> set (operators s)"
    and "\<forall>k \<in> set ks. operatorIndex k = index currOperator \<and> keyIndex k < totalSigningKeys currOperator"
  shows "totalBound (saveKeys ks s)"
  unfolding totalBound_iff
proof
  fix k
  assume "k \<in> set (keys (saveKeys ks s))"
  then have "k \<in> set ks \<or> k \<in> set (keys s)"
    using set_insertOnConflictMerge_subset [of keyConflict ks "keys s"]
    by (auto simp: keys_saveKeys)
  then show "\<exists>operator \<in> set (operators (saveKeys ks s)).
      index operator = operatorIndex k \<and> keyIndex k < totalSigningKeys operator"
  proof
    assume "k \<in> set ks"
    with assms(2,3) show ?thesis by auto
  next
    assume "k \<in> set (keys s)"
    with assms(1) show ?thesis by (auto simp: totalBound_iff)
  qed
qed

lemma sync_totalBound:
  assumes "keyFetchInRange c"
    and "\<forall>operator \<in> set ops. g operator \<le> totalSigningKeys operator"
    and "set ops \<subseteq> set (operators s)"
    and "totalBound s"
    and "syncUpdatedKeysWithContract g c prev ops h i s = (r, s', t)"
  shows "totalBound s'"
  using assms(2-)
proof (induction ops arbitrary: i s r s' t)
  case Nil
  then show ?case by simp
next
  case (Cons currOperator rest)
  let ?from = "getFromIndex g (prevOperatorAt prev i) currOperator"
  show ?case
  proof (cases "keyFetch c (index currOperator) ?from (g currOperator) h")
    case (Inl e)
    with Cons.prems(4) have "s' = s" by (simp add: Let_def)
    with Cons.prems(3) show ?thesis by simp
  next
    case (Inr result)
    from assms(1) Inr have range: "\<forall>k \<in> set result. operatorIndex k = index currOperator \<and> keyIndex k < g currOperator"
      unfolding keyFetchInRange_def by blast
    from Cons.prems(1) have "g currOperator \<le> totalSigningKeys currOperator" by simp
    with range have bound: "\<forall>k \<in> set result. operatorIndex k = index currOperator \<and> keyIndex k < totalSigningKeys currOperator"
      by fastforce
    from Cons.prems(2) have "currOperator \<in> set (operators s)" by simp
    with Cons.prems(3) bound have tb: "totalBound (saveKeys result s)"
      by (intro totalBound_saveKeys)
    obtain r1 s1 t1 where rec:
      "syncUpdatedKeysWithContract g c prev rest h (Suc i) (saveKeys result s) = (r1, s1, t1)"
      by (cases "syncUpdatedKeysWithContract g c prev rest h (Suc i) (saveKeys result s)") auto
    with Cons.prems(4) Inr have "s' = s1" by (simp add: Let_def)
    moreover have "totalBound s1"
    proof (rule Cons.IH [OF _ _ tb rec])
      from Cons.prems(1) show "\<forall>operator \<in> set rest. g operator \<le> totalSigningKeys operator" by simp
      from Cons.prems(2) show "set rest \<subseteq> set (operators (saveKeys result s))" by simp
    qed
    ultimately show ?thesis by simp
  qed
qed

lemma totalBound_saveOperatorsAndMeta:
  assumes "totalBound s" and "distinct (map index ops)"
  shows "totalBound (saveOperatorsAndMeta ops m s)"
  unfolding totalBound_iff
proof
  fix k
  assume "k \<in> set (keys (saveOperatorsAndMeta ops m s))"
  then have k: "k \<in> set (keys s)"
    and kept: "\<forall>operator \<in> set ops. \<not> (totalSigningKeys operator \<le> keyIndex k \<and> operatorIndex k = index operator)"
    by (auto simp: keys_saveOperatorsAndMeta)
  show "\<exists>operator \<in> set (operators (saveOperatorsAndMeta ops m s)).
      index operator = operatorIndex k \<and> keyIndex k < totalSigningKeys operator"
  proof (cases "\<exists>currOperator \<in> set ops. index currOperator = operatorIndex k")
    case True
    then obtain currOperator where currOperator: "currOperator \<in> set ops" "index currOperator = operatorIndex k" by blast
    from assms(2) have "distinct (map operatorConflict ops)"
      by (simp add: operatorConflict_def [abs_def])
    with currOperator(1) have "currOperator \<in> set (operators (saveOperatorsAndMeta ops m s))"
      by (simp add: operators_saveOperatorsAndMeta insertOnConflictMerge_mem)
    moreover from kept currOperator have "keyIndex k < totalSigningKeys currOperator" by fastforce
    ultimately show ?thesis using currOperator(2) by blast
  next
    case False
    from assms(1) k obtain operator where op: "operator \<in> set (operators s)"
      "index operator = operatorIndex k" "keyIndex k < totalSigningKeys operator"
      by (auto simp: totalBound_iff)
    from False op(2) have "operatorConflict operator \<notin> operatorConflict ` set ops"
      by (auto simp: operatorConflict_def)
    with op(1) have "operator \<in> set (operators (saveOperatorsAndMeta ops m s))"
      by (simp add: operators_saveOperatorsAndMeta insertOnConflictMerge_keep)
    with op(2,3) show ?thesis by blast
  qed
qed

lemma S4_keyFetchInRange: "keyFetchInRange S4_contract"
  by (auto simp: keyFetchInRange_def S4_contract_def keysInRange_def)

lemma S4_operatorFetchDistinct: "operatorFetchDistinct S4_contract"
  by (auto simp: operatorFetchDistinct_def S4_contract_def)

lemma S4_toIndexWithinTotal: "toIndexWithinTotal KeyRegistry_getToIndex S4_contract"
  by (auto simp: toIndexWithinTotal_def S4_contract_def KeyRegistry_getToIndex_def)

lemma S1_totalBound: "totalBound S1_store"
  by (simp add: totalBound_def scenario_defs)

text \<open>
  C5. An update keeps the total bound: if before the call every stored key has a stored
  operator of its operator index whose \<^verbatim>\<open>totalSigningKeys\<close> exceeds the key's index, the
  same holds of the store the call leaves, whichever path it took and also when a fetch
  threw half way. The slow path deletes each fetched operator's keys from its total on
  before it upserts the operators, and the key upserts that follow only store keys below
  \<^verbatim>\<open>getToIndex\<close>, which is at most the total. The empty store has the property, so every
  store the reconciler builds has it. The fetchers are taken to answer within the range
  asked for and to list every operator index once.
\<close>

theorem update_preserves_totalBound:
  assumes "totalBound s"
    and "keyFetchInRange c"
    and "operatorFetchDistinct c"
    and "toIndexWithinTotal g c"
    and "update g c blockRef s = (r, s', t)"
  shows "totalBound s'"
proof (cases "getMetaDataFromContract c blockRef")
  case (Inl e)
  with assms(5) have "s' = s" by (simp add: update_def)
  with assms(1) show ?thesis by simp
next
  case (Inr currMeta)
  let ?prev = "case getMetaDataFromStorage s of None \<Rightarrow> - 1 | Some p \<Rightarrow> int (blockNumber p)"
  consider (stale) "?prev > int (blockNumber currMeta)"
    | (fast) "\<not> ?prev > int (blockNumber currMeta)" "compareMeta (getMetaDataFromStorage s) currMeta"
    | (slow) "\<not> ?prev > int (blockNumber currMeta)" "\<not> compareMeta (getMetaDataFromStorage s) currMeta"
    by blast
  then show ?thesis
  proof cases
    case stale
    with assms(5) Inr have "s' = s" by (simp add: update_def Let_def)
    with assms(1) show ?thesis by simp
  next
    case fast
    with assms(5) Inr have "s' = s\<lparr>meta := Some currMeta\<rparr>" by (simp add: update_def Let_def)
    with assms(1) show ?thesis by (simp add: totalBound_def)
  next
    case slow
    show ?thesis
    proof (cases "getOperatorsFromContract c (blockHash currMeta)")
      case (Inl e)
      with assms(5) Inr slow have "s' = s" by (simp add: update_def Let_def)
      with assms(1) show ?thesis by simp
    next
      case ops: (Inr currentOperators)
      let ?s1 = "saveOperatorsAndMeta currentOperators currMeta s"
      obtain r1 s1 t1 where sync:
        "syncUpdatedKeysWithContract g c (getOperatorsFromStorage s) currentOperators
           (blockHash currMeta) 0 ?s1 = (r1, s1, t1)"
        by (cases "syncUpdatedKeysWithContract g c (getOperatorsFromStorage s) currentOperators
           (blockHash currMeta) 0 ?s1") auto
      with assms(5) Inr slow ops have s': "s' = s1" by (simp add: update_def Let_def)
      from assms(3) ops have dist: "distinct (map index currentOperators)"
        by (simp add: operatorFetchDistinct_def getOperatorsFromContract_def)
      then have "distinct (map operatorConflict currentOperators)"
        by (simp add: operatorConflict_def [abs_def])
      then have sub: "set currentOperators \<subseteq> set (operators ?s1)"
        by (auto simp: operators_saveOperatorsAndMeta insertOnConflictMerge_mem)
      have tb: "totalBound ?s1"
        using assms(1) dist by (rule totalBound_saveOperatorsAndMeta)
      from assms(4) ops have "\<forall>operator \<in> set currentOperators. g operator \<le> totalSigningKeys operator"
        unfolding toIndexWithinTotal_def getOperatorsFromContract_def by blast
      with assms(2) have "totalBound s1"
        using sub tb sync by (rule sync_totalBound)
      with s' show ?thesis by simp
    qed
  qed
qed

theorem update_preserves_totalBound_witness:
  "totalBound S1_store
   \<and> totalBound (fst (snd (update KeyRegistry_getToIndex S4_contract (BlockNum 101) S1_store)))
   \<and> fst (snd (update KeyRegistry_getToIndex S4_contract (BlockNum 101) S1_store)) = S4_store"
  using update_preserves_totalBound [OF S1_totalBound S4_keyFetchInRange S4_operatorFetchDistinct
      S4_toIndexWithinTotal S4_key_used]
  by (simp add: S1_totalBound S4_key_used)

section \<open>The reconciler: the used prefix\<close>




lemma rewritten_update:
  "update KeyRegistry_getToIndex rewritten_contract (BlockNum 102) two_operator_store =
     (Inr (Some rewritten_meta), rewritten_store,
      [OperatorFetch ''0xCC'',
       SaveOperatorsAndMeta [S1_operator, second_operator\<lparr>usedSigningKeys := 2\<rparr>] rewritten_meta,
       KeyFetch 0 1 3 ''0xCC'', SaveKeys [signingKey 0 1 ''k1'' False, signingKey 0 2 ''k2'' False],
       KeyFetch 1 0 2 ''0xCC'', SaveKeys [signingKey 1 0 ''k3'' True, signingKey 1 1 ''k4'' True]])"
  by (simp add: reconciler_defs scenario_defs)

lemma rewritten_resolved:
  "getMetaDataFromContract rewritten_contract (BlockNum 102) = Inr rewritten_meta"
  by (simp add: getMetaDataFromContract_def rewritten_contract_def rewritten_meta_def)







section \<open>The reconciler: the previous operator and the fetch range\<close>






text \<open>The lower border as the loop computes it, case by case.\<close>

lemma getFromIndex_cases:
  "getFromIndex g prevOperator currOperator =
     (case prevOperator of
        None \<Rightarrow> 0
      | Some p \<Rightarrow>
          if compareOperators (Some p) currOperator \<and> usedSigningKeys p \<le> g currOperator
          then usedSigningKeys p else 0)"
  by (cases prevOperator)
    (simp_all add: getFromIndex_def unchangedKeysMaxIndex_def compareOperators_def Let_def)

lemma getFromIndex_le: "getFromIndex g prev cur \<le> g cur"
  by (simp add: getFromIndex_def Let_def)

lemma keyFetches_Cons [simp]:
  "keyFetches (KeyFetch oi fromIndex toIndex h # t) = KeyFetch oi fromIndex toIndex h # keyFetches t"
  "keyFetches (SaveKeys ks # t) = keyFetches t"
  "keyFetches (OperatorFetch h # t) = keyFetches t"
  "keyFetches (SaveOperatorsAndMeta ops m # t) = keyFetches t"
  "keyFetches (ReplaceMeta m # t) = keyFetches t"
  "keyFetches [] = []"
  by (simp_all add: keyFetches_def)

text \<open>
  The key fetches of the loop are, in order, one for each operator it reached, with the
  operator's index, the lower border computed from the previous operator of its position
  and \<^verbatim>\<open>getToIndex\<close>; a loop that returns has reached every operator.
\<close>

lemma sync_keyFetches:
  assumes "syncUpdatedKeysWithContract g c prev ops h n s = (r, s', t)"
  shows "keyFetches t =
           take (length (keyFetches t))
             (map (\<lambda>(currentIndex, currOperator).
                     KeyFetch (index currOperator)
                       (getFromIndex g (prevOperatorAt prev currentIndex) currOperator)
                       (g currOperator) h)
                (enumerate n ops))
       \<and> (r = Inr () \<longrightarrow> length (keyFetches t) = length ops)"
  using assms
proof (induction ops arbitrary: n s r s' t)
  case Nil
  then show ?case by simp
next
  case (Cons currOperator rest)
  let ?from = "getFromIndex g (prevOperatorAt prev n) currOperator"
  show ?case
  proof (cases "keyFetch c (index currOperator) ?from (g currOperator) h")
    case (Inl e)
    with Cons.prems have "t = [KeyFetch (index currOperator) ?from (g currOperator) h]"
      and "r = Inl e"
      by (simp_all add: Let_def)
    then show ?thesis by simp
  next
    case (Inr result)
    obtain r1 s1 t1 where rec:
      "syncUpdatedKeysWithContract g c prev rest h (Suc n) (saveKeys result s) = (r1, s1, t1)"
      by (cases "syncUpdatedKeysWithContract g c prev rest h (Suc n) (saveKeys result s)") auto
    with Cons.prems Inr have r: "r = r1"
      and t: "t = KeyFetch (index currOperator) ?from (g currOperator) h # SaveKeys result # t1"
      by (simp_all add: Let_def)
    from Cons.IH [OF rec] r t show ?thesis by simp
  qed
qed

lemma sync_ranges:
  assumes "syncUpdatedKeysWithContract g c prev ops h n s = (r, s', t)"
    and "KeyFetch oi fromIndex toIndex h' \<in> set t"
  shows "fromIndex \<le> toIndex"
  using assms
proof (induction ops arbitrary: n s r s' t)
  case Nil
  then show ?case by simp
next
  case (Cons currOperator rest)
  let ?from = "getFromIndex g (prevOperatorAt prev n) currOperator"
  show ?case
  proof (cases "keyFetch c (index currOperator) ?from (g currOperator) h")
    case (Inl e)
    with Cons.prems show ?thesis by (auto simp: Let_def getFromIndex_le)
  next
    case (Inr result)
    obtain r1 s1 t1 where rec:
      "syncUpdatedKeysWithContract g c prev rest h (Suc n) (saveKeys result s) = (r1, s1, t1)"
      by (cases "syncUpdatedKeysWithContract g c prev rest h (Suc n) (saveKeys result s)") auto
    with Cons.prems(1) Inr have t: "t = KeyFetch (index currOperator) ?from (g currOperator) h # SaveKeys result # t1"
      by (simp add: Let_def)
    with Cons.prems(2) consider "fromIndex = ?from \<and> toIndex = g currOperator"
      | "KeyFetch oi fromIndex toIndex h' \<in> set t1" by auto
    then show ?thesis
    proof cases
      case 1
      then show ?thesis by (simp add: getFromIndex_le)
    next
      case 2
      with rec show ?thesis by (rule Cons.IH)
    qed
  qed
qed

lemma overused_update:
  "update KeyRegistry_getToIndex overused_contract (BlockNum 101) overused_store =
     (Inr (Some S4_meta), \<lparr>meta = Some S4_meta, operators = [overused_operator], keys = S1_keys\<rparr>,
      [OperatorFetch ''0xBB'', SaveOperatorsAndMeta [overused_operator] S4_meta,
       KeyFetch 0 0 3 ''0xBB'', SaveKeys S1_keys])"
  by (simp add: reconciler_defs scenario_defs)

text \<open>
  C4. The key fetches an update issues are, in order, one for each fetched operator up to
  the first that throws, all of them when the update returns the meta. Each asks for the
  operator's index and the range from the lower border to \<^verbatim>\<open>getToIndex(curr)\<close>, the lower
  border being \<^verbatim>\<open>prev.usedSigningKeys\<close> when \<^verbatim>\<open>compareOperators(prev, curr)\<close> holds and 0
  otherwise, and 0 whenever that value exceeds \<^verbatim>\<open>getToIndex(curr)\<close>; so in no key fetch
  does the lower border exceed the upper one.
\<close>

theorem update_key_fetch_ranges:
  assumes upd: "update g c blockRef s = (r, s', t)"
    and resolved: "getMetaDataFromContract c blockRef = Inr currMeta"
    and fetched: "operatorFetch c (blockHash currMeta) = Inr currentOperators"
  shows "keyFetches t =
           take (length (keyFetches t))
             (map (\<lambda>(currentIndex, currOperator).
                     KeyFetch (index currOperator)
                       (case prevOperatorAt (getOperatorsFromStorage s) currentIndex of
                          None \<Rightarrow> 0
                        | Some p \<Rightarrow>
                            if compareOperators (Some p) currOperator \<and>
                               usedSigningKeys p \<le> g currOperator
                            then usedSigningKeys p else 0)
                       (g currOperator) (blockHash currMeta))
                (enumerate 0 currentOperators))
       \<and> (r = Inr (Some currMeta) \<longrightarrow> length (keyFetches t) = length currentOperators)
       \<and> (\<forall>oi fromIndex toIndex h. KeyFetch oi fromIndex toIndex h \<in> set t \<longrightarrow> fromIndex \<le> toIndex)"
proof -
  let ?prev = "case getMetaDataFromStorage s of None \<Rightarrow> - 1 | Some p \<Rightarrow> int (blockNumber p)"
  consider (stale) "?prev > int (blockNumber currMeta)"
    | (fast) "\<not> ?prev > int (blockNumber currMeta)" "compareMeta (getMetaDataFromStorage s) currMeta"
    | (slow) "\<not> ?prev > int (blockNumber currMeta)" "\<not> compareMeta (getMetaDataFromStorage s) currMeta"
    by blast
  then show ?thesis
  proof cases
    case stale
    with upd resolved have "t = []" and "r = Inr None" by (simp_all add: update_def Let_def)
    then show ?thesis by simp
  next
    case fast
    with upd resolved have "t = [ReplaceMeta currMeta]" and "r = Inr None"
      by (simp_all add: update_def Let_def)
    then show ?thesis by simp
  next
    case slow
    obtain r1 s1 t1 where sync:
      "syncUpdatedKeysWithContract g c (getOperatorsFromStorage s) currentOperators
         (blockHash currMeta) 0 (saveOperatorsAndMeta currentOperators currMeta s) = (r1, s1, t1)"
      by (cases "syncUpdatedKeysWithContract g c (getOperatorsFromStorage s) currentOperators
         (blockHash currMeta) 0 (saveOperatorsAndMeta currentOperators currMeta s)") auto
    with upd resolved fetched slow have
      t: "t = OperatorFetch (blockHash currMeta) #
              SaveOperatorsAndMeta currentOperators currMeta # t1"
      and r: "r = (case r1 of Inl e \<Rightarrow> Inl e | Inr u \<Rightarrow> Inr (Some currMeta))"
      by (simp_all add: update_def getOperatorsFromContract_def Let_def)
    from r have returned: "r = Inr (Some currMeta) \<longrightarrow> r1 = Inr ()"
      by (cases r1) simp_all
    from sync_keyFetches [OF sync] t returned
    have computed: "keyFetches t =
           take (length (keyFetches t))
             (map (\<lambda>(currentIndex, currOperator).
                     KeyFetch (index currOperator)
                       (getFromIndex g (prevOperatorAt (getOperatorsFromStorage s) currentIndex) currOperator)
                       (g currOperator) (blockHash currMeta))
                (enumerate 0 currentOperators))"
      and all: "r = Inr (Some currMeta) \<longrightarrow> length (keyFetches t) = length currentOperators"
      by simp_all
    from computed have borders: "keyFetches t =
           take (length (keyFetches t))
             (map (\<lambda>(currentIndex, currOperator).
                     KeyFetch (index currOperator)
                       (case prevOperatorAt (getOperatorsFromStorage s) currentIndex of
                          None \<Rightarrow> 0
                        | Some p \<Rightarrow>
                            if compareOperators (Some p) currOperator \<and>
                               usedSigningKeys p \<le> g currOperator
                            then usedSigningKeys p else 0)
                       (g currOperator) (blockHash currMeta))
                (enumerate 0 currentOperators))"
      unfolding getFromIndex_cases .
    have "\<forall>oi fromIndex toIndex h. KeyFetch oi fromIndex toIndex h \<in> set t \<longrightarrow> fromIndex \<le> toIndex"
    proof (intro allI impI)
      fix oi fromIndex toIndex h
      assume "KeyFetch oi fromIndex toIndex h \<in> set t"
      with t have "KeyFetch oi fromIndex toIndex h \<in> set t1" by simp
      with sync show "fromIndex \<le> toIndex" by (rule sync_ranges)
    qed
    with borders all show ?thesis by simp
  qed
qed

text \<open>
  Three runs: an unchanged operator is fetched from its used count and a changed one from
  0; a new operator is fetched from 0; an unchanged operator with more used keys than keys
  is fetched from 0.
\<close>

theorem update_key_fetch_ranges_witness:
  "keyFetches (snd (snd (update KeyRegistry_getToIndex rewritten_contract (BlockNum 102)
       two_operator_store))) = [KeyFetch 0 1 3 ''0xCC'', KeyFetch 1 0 2 ''0xCC'']
   \<and> keyFetches (snd (snd (update KeyRegistry_getToIndex S1_contract (BlockNum 100) emptyStore))) =
       [KeyFetch 0 0 3 ''0xAA'']
   \<and> keyFetches (snd (snd (update KeyRegistry_getToIndex overused_contract (BlockNum 101)
       overused_store))) = [KeyFetch 0 0 3 ''0xBB'']"
proof -
  have fetched: "operatorFetch rewritten_contract (blockHash rewritten_meta) =
      Inr [S1_operator, second_operator\<lparr>usedSigningKeys := 2\<rparr>]"
    by (simp add: rewritten_contract_def)
  note two = update_key_fetch_ranges [OF rewritten_update rewritten_resolved fetched]
  have fetched1: "operatorFetch S1_contract (blockHash S1_meta) = Inr [S1_operator]"
    by (simp add: S1_contract_def)
  note new = update_key_fetch_ranges [OF S1_bootstrap S1_resolved fetched1]
  have resolved2: "getMetaDataFromContract overused_contract (BlockNum 101) = Inr S4_meta"
    by (simp add: getMetaDataFromContract_def overused_contract_def S4_meta_def)
  have fetched2: "operatorFetch overused_contract (blockHash S4_meta) = Inr [overused_operator]"
    by (simp add: overused_contract_def)
  note clamped = update_key_fetch_ranges [OF overused_update resolved2 fetched2]
  from two new clamped show ?thesis
    by (simp add: rewritten_update S1_bootstrap overused_update)
qed

section \<open>The store: conflict targets of the upserts\<close>

text \<open>
  C7, as the code has it. The key upsert resolves conflicts on the pair of operator index
  and key index, the operator upsert on the operator index, merging all columns: after the
  statement the row read at such a target is the last row of the statement with that
  target, and the stored one where the statement has none. The module address is not part
  of either target.
\<close>

theorem upsert_conflict_targets:
  "storedKey (saveKeys ks s) oi i =
     (case find (\<lambda>k. keyIndex k = i \<and> operatorIndex k = oi) (rev ks) of
        Some k \<Rightarrow> Some k | None \<Rightarrow> storedKey s oi i)
   \<and> storedOperator (saveOperatorsAndMeta ops m s) j =
     (case find (\<lambda>operator. index operator = j) (rev ops) of
        Some operator \<Rightarrow> Some operator | None \<Rightarrow> storedOperator s j)"
  by (simp add: storedKey_saveKeys storedOperator_saveOperatorsAndMeta)

theorem upsert_conflict_targets_witness:
  "storedKey (saveKeys [other_module_key] S1_store) 0 0 = Some other_module_key
   \<and> storedKey (saveKeys [other_module_key] S1_store) 0 1 = storedKey S1_store 0 1
   \<and> storedOperator (saveOperatorsAndMeta [other_module_operator] S4_meta S1_store) 0 =
       Some other_module_operator"
  using upsert_conflict_targets [of "[other_module_key]" S1_store 0 0 "[other_module_operator]" S4_meta 0]
    upsert_conflict_targets [of "[other_module_key]" S1_store 0 1 "[other_module_operator]" S4_meta 0]
  by (simp add: other_module_key_def other_module_operator_def signingKey_def)

text \<open>
  Rows of one module are overwritten by rows of another: a key of module 0xN with the
  operator index and index of a stored key of module 0xM replaces it, and so does an
  operator.
\<close>

theorem upsert_conflict_targets_counterexample:
  "keys S1_store = [signingKey 0 0 ''k0'' True, signingKey 0 1 ''k1'' False, signingKey 0 2 ''k2'' False]
   \<and> keyModuleAddress (signingKey 0 0 ''k0'' True) \<noteq> keyModuleAddress other_module_key
   \<and> keys (saveKeys [other_module_key] S1_store) =
       [other_module_key, signingKey 0 1 ''k1'' False, signingKey 0 2 ''k2'' False]
   \<and> operators S1_store = [S1_operator]
   \<and> moduleAddress S1_operator \<noteq> moduleAddress other_module_operator
   \<and> operators (saveOperatorsAndMeta [other_module_operator] S4_meta S1_store) = [other_module_operator]"
  by (simp add: reconciler_defs scenario_defs)

section \<open>HTTP key reads: verified properties\<close>

lemma collectKeys_no_meta:
  "collectKeys (ks, None) mods i col snap =
     (if \<exists>m \<in> set mods. moduleType m = CURATED_ONCHAIN_V1_TYPE then Inl TooEarly
      else Inr (col, snap))"
  by (induction mods arbitrary: i col snap) auto

lemma collectKeys_no_keys:
  "\<exists>col'. collectKeys ([], Some m) mods i col snap =
       Inr (col', if i = 0 \<and> mods \<noteq> [] \<and> moduleType (hd mods) = CURATED_ONCHAIN_V1_TYPE
                  then Some (newELBlockSnapshot m) else snap)
     \<and> concat col' = concat col"
proof (induction mods arbitrary: i col snap)
  case Nil
  then show ?case by simp
next
  case (Cons a mods)
  show ?case
  proof (cases "moduleType a = CURATED_ONCHAIN_V1_TYPE")
    case True
    from Cons.IH [of "Suc i" "col @ [[]]" "if i = 0 then Some (newELBlockSnapshot m) else snap"]
    obtain col' where "collectKeys ([], Some m) mods (Suc i) (col @ [[]])
        (if i = 0 then Some (newELBlockSnapshot m) else snap) =
        Inr (col', if i = 0 then Some (newELBlockSnapshot m) else snap)"
      and "concat col' = concat col"
      by auto
    with True show ?thesis by auto
  next
    case False
    from Cons.IH [of "Suc i" col snap]
    obtain col' where "collectKeys ([], Some m) mods (Suc i) col snap = Inr (col', snap)"
      and "concat col' = concat col"
      by auto
    with False show ?thesis by auto
  qed
qed

text \<open>
  C8. With a null stored meta each of the three reads raises the TooEarly exception, of
  status 425, and returns no keys. No read returns a response whose block snapshot is
  null.
\<close>

theorem reads_too_early_without_meta:
  "(meta s = None \<longrightarrow>
      get s stakingModules filters = Inl TooEarly \<and>
      getByPubkey s stakingModules pubkey = Inl TooEarly \<and>
      getByPubkeys s stakingModules pubkeys = Inl TooEarly)
   \<and> httpStatus TooEarly = 425
   \<and> (\<forall>resp. get s stakingModules filters = Inr resp \<longrightarrow> streamSnapshot resp \<noteq> None)
   \<and> (\<forall>resp. getByPubkey s stakingModules pubkey = Inr resp \<longrightarrow> elBlockSnapshot resp \<noteq> None)
   \<and> (\<forall>resp. getByPubkeys s stakingModules pubkeys = Inr resp \<longrightarrow> elBlockSnapshot resp \<noteq> None)"
proof (intro conjI impI allI)
  assume "meta s = None"
  then show "get s stakingModules filters = Inl TooEarly"
    by (simp add: get_def getKeysWithMetaStream_def)
next
  assume "meta s = None"
  then show "getByPubkey s stakingModules pubkey = Inl TooEarly"
    by (simp add: getByPubkey_def getKeyWithMetaByPubkey_def collectKeys_no_meta)
next
  assume "meta s = None"
  then show "getByPubkeys s stakingModules pubkeys = Inl TooEarly"
    by (simp add: getByPubkeys_def getKeysWithMetaByPubkeys_def collectKeys_no_meta)
next
  show "httpStatus TooEarly = 425" by simp
next
  fix resp assume "get s stakingModules filters = Inr resp"
  then show "streamSnapshot resp \<noteq> None"
    by (auto simp: get_def Let_def split: if_splits prod.splits option.splits)
next
  fix resp assume "getByPubkey s stakingModules pubkey = Inr resp"
  then show "elBlockSnapshot resp \<noteq> None"
    by (auto simp: getByPubkey_def Let_def split: if_splits prod.splits sum.splits)
next
  fix resp assume "getByPubkeys s stakingModules pubkeys = Inr resp"
  then show "elBlockSnapshot resp \<noteq> None"
    by (auto simp: getByPubkeys_def Let_def split: if_splits prod.splits sum.splits)
qed

theorem reads_too_early_without_meta_witness:
  "meta emptyStore = None
   \<and> get emptyStore [curated_module] \<lparr>queryUsed = None, queryOperatorIndex = None\<rparr> = Inl TooEarly
   \<and> getByPubkey emptyStore [curated_module] ''k0'' = Inl TooEarly
   \<and> getByPubkeys emptyStore [community_module, curated_module] [''k0'', ''k1''] = Inl TooEarly
   \<and> getByPubkey S1_store [curated_module] ''k0'' =
       Inr \<lparr>responseData = [(signingKey 0 0 ''k0'' True, ''0xM'')],
            elBlockSnapshot = Some (newELBlockSnapshot S1_meta)\<rparr>"
proof -
  have none: "meta emptyStore = None" by (simp add: emptyStore_def)
  have found: "getByPubkey S1_store [curated_module] ''k0'' =
       Inr \<lparr>responseData = [(signingKey 0 0 ''k0'' True, ''0xM'')],
            elBlockSnapshot = Some (newELBlockSnapshot S1_meta)\<rparr>"
    by (simp add: getByPubkey_def getKeyWithMetaByPubkey_def scenario_defs)
  from none
    reads_too_early_without_meta [of emptyStore "[curated_module]"
      "\<lparr>queryUsed = None, queryOperatorIndex = None\<rparr>" "''k0''" "[''k0'', ''k1'']"]
    reads_too_early_without_meta [of emptyStore "[community_module, curated_module]"
      "\<lparr>queryUsed = None, queryOperatorIndex = None\<rparr>" "''k0''" "[''k0'', ''k1'']"]
  show ?thesis using found by blast
qed

text \<open>
  C10, as the code has it. With a stored meta and a module list whose first module is of
  the curated type, the lookup of one public key that no stored key has raises
  \<^verbatim>\<open>NotFoundException\<close>, and the lookup of several public keys none of which a stored key
  has returns an empty list with the block snapshot of the meta.
\<close>

theorem empty_lookup_results:
  assumes "stakingModules \<noteq> []"
    and "moduleType (hd stakingModules) = CURATED_ONCHAIN_V1_TYPE"
    and "meta s = Some m"
  shows "((\<forall>k \<in> set (keys s). key k \<noteq> pubkey) \<longrightarrow>
            getByPubkey s stakingModules pubkey =
              Inl (NotFoundException (''There are no keys with '' @ pubkey @ '' public key in db.'')))
       \<and> ((\<forall>k \<in> set (keys s). key k \<notin> set pubkeys) \<longrightarrow>
            getByPubkeys s stakingModules pubkeys =
              Inr \<lparr>responseData = [], elBlockSnapshot = Some (newELBlockSnapshot m)\<rparr>)"
proof (intro conjI impI)
  obtain col' where col: "collectKeys ([], Some m) stakingModules 0 [] None =
      Inr (col', Some (newELBlockSnapshot m))" "concat col' = []"
    using collectKeys_no_keys [of m stakingModules 0 "[]" None] assms(1,2) by auto
  {
    assume "\<forall>k \<in> set (keys s). key k \<noteq> pubkey"
    then have "filter (\<lambda>k. key k = pubkey) (keys s) = []" by (simp add: filter_empty_conv)
    with assms(3) have "getKeyWithMetaByPubkey s pubkey = ([], Some m)"
      by (simp add: getKeyWithMetaByPubkey_def)
    with col assms(1) show "getByPubkey s stakingModules pubkey =
        Inl (NotFoundException (''There are no keys with '' @ pubkey @ '' public key in db.''))"
      by (simp add: getByPubkey_def)
  }
  {
    assume "\<forall>k \<in> set (keys s). key k \<notin> set pubkeys"
    then have "filter (\<lambda>k. key k \<in> set pubkeys) (keys s) = []" by (simp add: filter_empty_conv)
    with assms(3) have "getKeysWithMetaByPubkeys s pubkeys = ([], Some m)"
      by (simp add: getKeysWithMetaByPubkeys_def)
    with col assms(1) show "getByPubkeys s stakingModules pubkeys =
        Inr \<lparr>responseData = [], elBlockSnapshot = Some (newELBlockSnapshot m)\<rparr>"
      by (simp add: getByPubkeys_def)
  }
qed

theorem empty_lookup_results_witness:
  "getByPubkey S1_store [curated_module, community_module] ''zz'' =
     Inl (NotFoundException ''There are no keys with zz public key in db.'')
   \<and> getByPubkeys S1_store [curated_module, community_module] [''zz'', ''yy''] =
     Inr \<lparr>responseData = [], elBlockSnapshot = Some (newELBlockSnapshot S1_meta)\<rparr>"
proof -
  have mods: "[curated_module, community_module] \<noteq> []" by simp
  have first: "moduleType (hd [curated_module, community_module]) = CURATED_ONCHAIN_V1_TYPE"
    by (simp add: curated_module_def)
  have stored: "meta S1_store = Some S1_meta" by (simp add: S1_store_def)
  have single: "\<forall>k \<in> set (keys S1_store). key k \<noteq> ''zz''"
    by (simp add: scenario_defs)
  have multi: "\<forall>k \<in> set (keys S1_store). key k \<notin> set [''zz'', ''yy'']"
    by (simp add: scenario_defs)
  from empty_lookup_results [OF mods first stored, of "''zz''" "[''zz'', ''yy'']"] single multi
  show ?thesis by simp
qed

text \<open>
  A non-empty module list and a stored meta do not suffice: the snapshot is only taken
  from the module at position 0, so with a first module of another type both lookups
  raise TooEarly.
\<close>

theorem empty_lookup_results_counterexample:
  "[community_module, curated_module] \<noteq> []
   \<and> meta S1_store = Some S1_meta
   \<and> fst (getKeyWithMetaByPubkey S1_store ''zz'') = []
   \<and> getByPubkey S1_store [community_module, curated_module] ''zz'' = Inl TooEarly
   \<and> getByPubkeys S1_store [community_module, curated_module] [''zz''] = Inl TooEarly"
  by (simp add: getByPubkey_def getByPubkeys_def getKeyWithMetaByPubkey_def
      getKeysWithMetaByPubkeys_def scenario_defs)

section \<open>The stall watchdog: verified properties\<close>

lemma timeout_ms: "UPDATE_VALIDATORS_TIMEOUT_MS = 5400000"
  by (simp add: UPDATE_VALIDATORS_TIMEOUT_MS_def)

lemma deadline_armed:
  assumes "now + UPDATE_VALIDATORS_TIMEOUT_MS \<le> t"
  shows "deadline t (checkValidatorsUpdateTimeout now p) =
     Some (ProcessExit 1 \<lparr>messageMinutes = 90, lastBlock = lastBlockNumber p\<rparr>)"
  using assms
  by (simp add: deadline_def checkValidatorsUpdateTimeout_def Let_def timeout_ms)

lemma pending_after_success:
  "pendingTimers (updateValidators now (Inr m) p) =
     (if updateDeadlineTimer p \<noteq> None \<and> isUpdated now (updateValidators now (Inr m) p)
      then clearTimeout (the (updateDeadlineTimer p)) (pendingTimers p)
      else pendingTimers p) @ [(nextTimerHandle p, now + UPDATE_VALIDATORS_TIMEOUT_MS)]"
  by (cases "updateDeadlineTimer p")
    (simp_all add: updateValidators_def checkValidatorsUpdateTimeout_def Let_def isUpdated_def)

text \<open>
  C9, as the code has it. The timeout is 90 * 60 * 1000 ms. A timer armed at some time and
  pending one timeout later makes the process exit with code 1 and a
  \<^verbatim>\<open>ValidatorsOutdatedError\<close> that carries \<^verbatim>\<open>lastBlockNumber\<close>; a job that threw leaves the
  timers as they were. A job that succeeded always arms a new timer, and it clears the
  timer armed before only when \<^verbatim>\<open>lastBlockTimestampSec\<close> is then set, not 0 and less than
  the timeout behind the wall clock; in that case, the cleared timer having been the only
  one pending, the process does not exit before the new timer is due.
\<close>

theorem stall_watchdog:
  "UPDATE_VALIDATORS_TIMEOUT_MS = 90 * 60 * 1000
   \<and> (\<forall>t. now + UPDATE_VALIDATORS_TIMEOUT_MS \<le> t \<longrightarrow>
        deadline t (checkValidatorsUpdateTimeout now p) =
          Some (ProcessExit 1 \<lparr>messageMinutes = 90, lastBlock = lastBlockNumber p\<rparr>))
   \<and> updateValidators now (Inl e) p = p
   \<and> pendingTimers (updateValidators now (Inr m) p) =
       (if updateDeadlineTimer p \<noteq> None \<and> isUpdated now (updateValidators now (Inr m) p)
        then clearTimeout (the (updateDeadlineTimer p)) (pendingTimers p)
        else pendingTimers p) @ [(nextTimerHandle p, now + UPDATE_VALIDATORS_TIMEOUT_MS)]
   \<and> (pendingTimers p = [(handle, due)] \<and> updateDeadlineTimer p = Some handle \<and>
      isUpdated now (updateValidators now (Inr m) p) \<longrightarrow>
        (\<forall>t < now + UPDATE_VALIDATORS_TIMEOUT_MS. deadline t (updateValidators now (Inr m) p) = None))"
proof (intro conjI allI impI)
  show "UPDATE_VALIDATORS_TIMEOUT_MS = 90 * 60 * 1000"
    by (simp add: UPDATE_VALIDATORS_TIMEOUT_MS_def)
next
  fix t assume "now + UPDATE_VALIDATORS_TIMEOUT_MS \<le> t"
  then show "deadline t (checkValidatorsUpdateTimeout now p) =
          Some (ProcessExit 1 \<lparr>messageMinutes = 90, lastBlock = lastBlockNumber p\<rparr>)"
    by (rule deadline_armed)
next
  show "updateValidators now (Inl e) p = p" by (simp add: updateValidators_def)
next
  show "pendingTimers (updateValidators now (Inr m) p) =
       (if updateDeadlineTimer p \<noteq> None \<and> isUpdated now (updateValidators now (Inr m) p)
        then clearTimeout (the (updateDeadlineTimer p)) (pendingTimers p)
        else pendingTimers p) @ [(nextTimerHandle p, now + UPDATE_VALIDATORS_TIMEOUT_MS)]"
    by (rule pending_after_success)
next
  fix t
  assume a: "pendingTimers p = [(handle, due)] \<and> updateDeadlineTimer p = Some handle \<and>
      isUpdated now (updateValidators now (Inr m) p)"
    and t: "t < now + UPDATE_VALIDATORS_TIMEOUT_MS"
  from a have "pendingTimers (updateValidators now (Inr m) p) =
      [(nextTimerHandle p, now + UPDATE_VALIDATORS_TIMEOUT_MS)]"
    by (simp add: pending_after_success clearTimeout_def)
  with t show "deadline t (updateValidators now (Inr m) p) = None"
    by (simp add: deadline_def)
qed

theorem stall_watchdog_witness:
  "deadline 1700005400000 (initialize 1700000000000) =
     Some (ProcessExit 1 \<lparr>messageMinutes = 90, lastBlock = None\<rparr>)
   \<and> deadline 1700005400000
       (updateValidators 1700000060000
          (Inr (Some \<lparr>metaTimestamp = 1700000000, metaBlockNumber = 18500000, metaSlot = 7600000\<rparr>))
          (initialize 1700000000000)) = None"
proof -
  let ?m = "Some \<lparr>metaTimestamp = 1700000000, metaBlockNumber = 18500000, metaSlot = 7600000\<rparr>"
  let ?p = "initialize 1700000000000"
  have pending: "pendingTimers ?p = [(0, 1700005400000)] \<and> updateDeadlineTimer ?p = Some 0 \<and>
      isUpdated 1700000060000 (updateValidators 1700000060000 (Inr ?m) ?p)"
    by (simp add: initialize_def checkValidatorsUpdateTimeout_def newValidatorsUpdateService_def
        updateValidators_def isUpdated_def Let_def timeout_ms)
  have late: "(1700000000000::nat) + UPDATE_VALIDATORS_TIMEOUT_MS \<le> 1700005400000"
    by (simp add: timeout_ms)
  have early: "(1700005400000::nat) < 1700000060000 + UPDATE_VALIDATORS_TIMEOUT_MS"
    by (simp add: timeout_ms)
  note w = stall_watchdog [of 1700000000000 newValidatorsUpdateService ChainUnavailable ?m 0 1700005400000]
  note v = stall_watchdog [of 1700000060000 ?p ChainUnavailable ?m 0 1700005400000]
  from w late have "deadline 1700005400000 (initialize 1700000000000) =
     Some (ProcessExit 1 \<lparr>messageMinutes = 90, lastBlock = None\<rparr>)"
    unfolding initialize_def by (simp add: newValidatorsUpdateService_def)
  moreover from v pending early have
    "deadline 1700005400000 (updateValidators 1700000060000 (Inr ?m) ?p) = None"
    by blast
  ultimately show ?thesis by simp
qed

text \<open>
  A timely success does not always prevent the exit: the service is initialized, its
  first job succeeds a minute later with the meta of a block whose timestamp is 10060 s
  behind the wall clock, and the timer armed at the initialization still makes the
  process exit when it is due.
\<close>

theorem stall_watchdog_counterexample:
  "(1700000060000::nat) < 1700000000000 + UPDATE_VALIDATORS_TIMEOUT_MS
   \<and> deadline 1700005400000
     (updateValidators 1700000060000
        (Inr (Some \<lparr>metaTimestamp = 1699990000, metaBlockNumber = 18500000, metaSlot = 7600000\<rparr>))
        (initialize 1700000000000)) =
   Some (ProcessExit 1 \<lparr>messageMinutes = 90, lastBlock = Some 18500000\<rparr>)"
  by (simp add: deadline_def updateValidators_def initialize_def checkValidatorsUpdateTimeout_def
      newValidatorsUpdateService_def isUpdated_def Let_def timeout_ms)

end
